theory Spec2Isabelle
  imports Complex_Main
begin

section \<open>Values of type float\<close>

text \<open>
  The statistics of \<^verbatim>\<open>timing_util\<close> are computed on C++ \<^verbatim>\<open>float\<close>s, with a few
  steps in \<^verbatim>\<open>double\<close>. A value of either type is modelled as a finite real number or one
  of the three special values the code itself produces and tests for: the two infinities
  (the start values of the minimum and maximum searches, the result of an overflow) and NaN
  (the start value of a default-constructed path, the result of \<^verbatim>\<open>find_node_setup_slack\<close>
  on a miss). The special values follow IEEE 754: every comparison with NaN is false,
  infinity minus infinity is NaN. A sum, a difference or a quotient of finite values is
  rounded to the nearest value of its type, ties to even, and overflows to an infinity:
  to binary32 for \<^verbatim>\<open>float\<close>, to binary64 for \<^verbatim>\<open>double\<close>. The sign of zero is not part of
  the model.
\<close>

datatype fval = Fin real | PInf | MInf | NaN

subsection \<open>Comparisons\<close>

text \<open>\<^verbatim>\<open>a < b\<close>\<close>

fun fless :: "fval \<Rightarrow> fval \<Rightarrow> bool" where
  "fless NaN _ = False"
| "fless _ NaN = False"
| "fless (Fin a) (Fin b) = (a < b)"
| "fless (Fin _) PInf = True"
| "fless (Fin _) MInf = False"
| "fless PInf _ = False"
| "fless MInf MInf = False"
| "fless MInf _ = True"

text \<open>\<^verbatim>\<open>a <= b\<close>\<close>

fun fle :: "fval \<Rightarrow> fval \<Rightarrow> bool" where
  "fle NaN _ = False"
| "fle _ NaN = False"
| "fle (Fin a) (Fin b) = (a \<le> b)"
| "fle (Fin _) PInf = True"
| "fle (Fin _) MInf = False"
| "fle PInf PInf = True"
| "fle PInf _ = False"
| "fle MInf _ = True"

text \<open>\<^verbatim>\<open>std::isnan\<close>\<close>

fun isnan :: "fval \<Rightarrow> bool" where
  "isnan NaN = True"
| "isnan _ = False"

text \<open>\<^verbatim>\<open>std::min(a, b)\<close> is \<^verbatim>\<open>(b < a) ? b : a\<close>; \<^verbatim>\<open>std::max(a, b)\<close> is
  \<^verbatim>\<open>(a < b) ? b : a\<close>.\<close>

definition fmin :: "fval \<Rightarrow> fval \<Rightarrow> fval" where
  "fmin a b = (if fless b a then b else a)"

definition fmax :: "fval \<Rightarrow> fval \<Rightarrow> fval" where
  "fmax a b = (if fless a b then b else a)"

subsection \<open>Rounding\<close>

text \<open>Rounding of a real number to an integer, halves to the even neighbour.\<close>

definition rne :: "real \<Rightarrow> int" where
  "rne x =
     (let f = \<lfloor>x\<rfloor>; d = x - of_int f in
      if d < 1 / 2 then f else if 1 / 2 < d then f + 1 else if even f then f else f + 1)"

text \<open>
  The exponent of the binade of a magnitude \<open>a\<close>: the least \<open>k\<close> from the start value on
  with \<open>a < 2 ^ (k + 1)\<close>, searched in at most \<open>n\<close> steps. Started at the least exponent
  of a format it gives that exponent for the subnormal numbers as well.
\<close>

fun binade :: "nat \<Rightarrow> int \<Rightarrow> real \<Rightarrow> int" where
  "binade 0 k a = k"
| "binade (Suc n) k a = (if a < 2 powi (k + 1) then k else binade n (k + 1) a)"

text \<open>
  Rounding of a magnitude and of a real number to the format of precision \<open>p\<close> with the
  exponents from \<open>emin\<close> to \<open>emax\<close>: the magnitude is rounded to a multiple of the
  spacing of its binade, and a result of \<open>2 ^ (emax + 1)\<close> or more is an overflow.
\<close>

definition round_mag :: "nat \<Rightarrow> int \<Rightarrow> int \<Rightarrow> real \<Rightarrow> real" where
  "round_mag p emin emax a =
     (let k = binade (nat (emax - emin + 1)) emin a;
          q = 2 powi (k - int p + 1) in
      of_int (rne (a / q)) * q)"

definition round_to :: "nat \<Rightarrow> int \<Rightarrow> int \<Rightarrow> real \<Rightarrow> fval" where
  "round_to p emin emax x =
     (let r = round_mag p emin emax \<bar>x\<bar> in
      if 2 powi (emax + 1) \<le> r then (if 0 < x then PInf else MInf)
      else Fin (if 0 \<le> x then r else - r))"

text \<open>Conversion to \<^verbatim>\<open>float\<close> (binary32) and to \<^verbatim>\<open>double\<close> (binary64).\<close>

definition to_float :: "real \<Rightarrow> fval" where
  "to_float x = round_to 24 (- 126) 127 x"

definition to_double :: "real \<Rightarrow> fval" where
  "to_double x = round_to 53 (- 1022) 1023 x"

text \<open>\<^verbatim>\<open>(float) d\<close> for a double \<open>d\<close>.\<close>

fun float_of_double :: "fval \<Rightarrow> fval" where
  "float_of_double (Fin x) = to_float x"
| "float_of_double PInf = PInf"
| "float_of_double MInf = MInf"
| "float_of_double NaN = NaN"

subsection \<open>Arithmetic\<close>

fun fneg :: "fval \<Rightarrow> fval" where
  "fneg (Fin a) = Fin (- a)"
| "fneg PInf = MInf"
| "fneg MInf = PInf"
| "fneg NaN = NaN"

text \<open>Addition with the result rounded by \<open>rnd\<close>; \<open>fadd\<close> is the sum of two floats,
  \<open>dadd\<close> the sum of two doubles, \<open>fsub\<close> and \<open>dsub\<close> the differences.\<close>

fun add_rounded :: "(real \<Rightarrow> fval) \<Rightarrow> fval \<Rightarrow> fval \<Rightarrow> fval" where
  "add_rounded rnd NaN _ = NaN"
| "add_rounded rnd _ NaN = NaN"
| "add_rounded rnd (Fin a) (Fin b) = rnd (a + b)"
| "add_rounded rnd (Fin _) PInf = PInf"
| "add_rounded rnd (Fin _) MInf = MInf"
| "add_rounded rnd PInf MInf = NaN"
| "add_rounded rnd PInf _ = PInf"
| "add_rounded rnd MInf PInf = NaN"
| "add_rounded rnd MInf _ = MInf"

definition fadd :: "fval \<Rightarrow> fval \<Rightarrow> fval" where
  "fadd a b = add_rounded to_float a b"

definition fsub :: "fval \<Rightarrow> fval \<Rightarrow> fval" where
  "fsub a b = add_rounded to_float a (fneg b)"

definition dadd :: "fval \<Rightarrow> fval \<Rightarrow> fval" where
  "dadd a b = add_rounded to_double a b"

definition dsub :: "fval \<Rightarrow> fval \<Rightarrow> fval" where
  "dsub a b = add_rounded to_double a (fneg b)"

text \<open>
  The product of the conversion to nanoseconds, which the source computes in
  \<^verbatim>\<open>double\<close>. It is not rounded: \<open>1e9\<close> is \<open>2 ^ 9 * 5 ^ 9\<close> with \<open>5 ^ 9 < 2 ^ 21\<close>, so
  the product of a float and \<open>1e9\<close> has at most 45 significant bits and is far from the
  overflow and the underflow of a double.
\<close>

fun fmul :: "fval \<Rightarrow> fval \<Rightarrow> fval" where
  "fmul NaN _ = NaN"
| "fmul _ NaN = NaN"
| "fmul (Fin a) (Fin b) = Fin (a * b)"
| "fmul (Fin a) PInf = (if a = 0 then NaN else if 0 < a then PInf else MInf)"
| "fmul (Fin a) MInf = (if a = 0 then NaN else if 0 < a then MInf else PInf)"
| "fmul PInf (Fin b) = (if b = 0 then NaN else if 0 < b then PInf else MInf)"
| "fmul MInf (Fin b) = (if b = 0 then NaN else if 0 < b then MInf else PInf)"
| "fmul PInf PInf = PInf"
| "fmul PInf MInf = MInf"
| "fmul MInf PInf = MInf"
| "fmul MInf MInf = PInf"

text \<open>Division of two floats; a zero divisor is taken as positive zero.\<close>

fun fdiv :: "fval \<Rightarrow> fval \<Rightarrow> fval" where
  "fdiv NaN _ = NaN"
| "fdiv _ NaN = NaN"
| "fdiv (Fin a) (Fin b) =
     (if b = 0 then (if a = 0 then NaN else if 0 < a then PInf else MInf)
      else to_float (a / b))"
| "fdiv (Fin _) PInf = Fin 0"
| "fdiv (Fin _) MInf = Fin 0"
| "fdiv PInf (Fin b) = (if 0 \<le> b then PInf else MInf)"
| "fdiv MInf (Fin b) = (if 0 \<le> b then MInf else PInf)"
| "fdiv PInf _ = NaN"
| "fdiv MInf _ = NaN"

section \<open>Timing tags and the analysed design\<close>

text \<open>
  Modelled from the spec: the types of the timing analyser (\<^verbatim>\<open>tatum::TimingTag\<close>,
  \<^verbatim>\<open>tatum::DomainId\<close>, \<^verbatim>\<open>tatum::NodeId\<close>, \<^verbatim>\<open>tatum::TagType\<close>, \<^verbatim>\<open>tatum::NodeType\<close>),
  which are declared outside the file. A domain and a node are identifiers; a tag belongs to
  one node and carries its kind, its launch and capture clock domain and a signed time.
\<close>

type_synonym DomainId = int
type_synonym NodeId = nat

datatype TagType = CLOCK_LAUNCH | CLOCK_CAPTURE | DATA_ARRIVAL | DATA_REQUIRED | SLACK

datatype NodeType = SOURCE | SINK | IPIN | OPIN | CPIN

record TimingTag =
  tag_type :: TagType
  launch_clock_domain :: DomainId
  capture_clock_domain :: DomainId
  time_value :: fval

type_synonym DomainPair = "DomainId \<times> DomainId"

text \<open>
  A failed \<^verbatim>\<open>VTR_ASSERT\<close> or \<^verbatim>\<open>VTR_ASSERT_MSG\<close> ends the program; the model returns it
  as an error that carries the message (or the asserted expression). Writing through
  \<^verbatim>\<open>histogram[histogram.size()-1]\<close> on an empty vector is the second error.
\<close>

datatype error = AssertFailed string | IndexOutOfRange

section \<open>Negative-slack statistics\<close>

text \<open>
  The functions read the nodes \<^verbatim>\<open>timing_ctx.graph->logical_outputs()\<close> in order and,
  for each, the slack tags the analyser holds for it: the first argument is the list of
  nodes, the second the analyser's \<^verbatim>\<open>setup_slacks\<close> (or \<^verbatim>\<open>hold_slacks\<close>).
\<close>

definition tns_tag :: "TimingTag \<Rightarrow> fval \<Rightarrow> fval" where
  "tns_tag tag tns =
     (let slack = time_value tag in
      if fless slack (Fin 0) then fadd tns slack else tns)"

definition find_setup_total_negative_slack ::
  "NodeId list \<Rightarrow> (NodeId \<Rightarrow> TimingTag list) \<Rightarrow> fval" where
  "find_setup_total_negative_slack logical_outputs setup_slacks =
     fold (\<lambda>node tns. fold tns_tag (setup_slacks node) tns) logical_outputs (Fin 0)"

definition find_hold_total_negative_slack ::
  "NodeId list \<Rightarrow> (NodeId \<Rightarrow> TimingTag list) \<Rightarrow> fval" where
  "find_hold_total_negative_slack logical_outputs hold_slacks =
     fold (\<lambda>node tns. fold tns_tag (hold_slacks node) tns) logical_outputs (Fin 0)"

definition wns_tag :: "TimingTag \<Rightarrow> fval \<Rightarrow> fval" where
  "wns_tag tag wns =
     (let slack = time_value tag in
      if fless slack (Fin 0) then fmin wns slack else wns)"

definition find_setup_worst_negative_slack ::
  "NodeId list \<Rightarrow> (NodeId \<Rightarrow> TimingTag list) \<Rightarrow> fval" where
  "find_setup_worst_negative_slack logical_outputs setup_slacks =
     fold (\<lambda>node wns. fold wns_tag (setup_slacks node) wns) logical_outputs (Fin 0)"

definition find_hold_worst_negative_slack ::
  "NodeId list \<Rightarrow> (NodeId \<Rightarrow> TimingTag list) \<Rightarrow> fval" where
  "find_hold_worst_negative_slack logical_outputs hold_slacks =
     fold (\<lambda>node wns. fold wns_tag (hold_slacks node) wns) logical_outputs (Fin 0)"

text \<open>All the tags the two nested loops visit, in the order they visit them.\<close>

definition visited_tags :: "NodeId list \<Rightarrow> (NodeId \<Rightarrow> TimingTag list) \<Rightarrow> TimingTag list" where
  "visited_tags logical_outputs slacks = concat (map slacks logical_outputs)"

section \<open>Critical paths\<close>

text \<open>
  Modelled from the spec: \<^verbatim>\<open>tatum::TimingPathInfo\<close> is declared outside the file. A
  default-constructed path is the undefined sentinel: its delay and its slack are NaN and its
  domains are the invalid identifier.
\<close>

record TimingPathInfo =
  path_launch_domain :: DomainId
  path_capture_domain :: DomainId
  path_delay :: fval
  path_slack :: fval

definition default_TimingPathInfo :: TimingPathInfo where
  "default_TimingPathInfo =
     \<lparr>path_launch_domain = - 1, path_capture_domain = - 1, path_delay = NaN, path_slack = NaN\<rparr>"

text \<open>The argument \<open>cpds\<close> is the result of \<^verbatim>\<open>tatum::find_critical_paths\<close>, one path per
  domain pair, in the order of the enumeration.\<close>

definition find_longest_critical_path_delay :: "TimingPathInfo list \<Rightarrow> TimingPathInfo" where
  "find_longest_critical_path_delay cpds =
     fold (\<lambda>path_info crit_path_info.
             if fless (path_delay crit_path_info) (path_delay path_info)
                \<or> isnan (path_delay crit_path_info)
             then path_info else crit_path_info)
       cpds default_TimingPathInfo"

definition find_least_slack_critical_path_delay :: "TimingPathInfo list \<Rightarrow> TimingPathInfo" where
  "find_least_slack_critical_path_delay cpds =
     fold (\<lambda>path_info crit_path_info.
             if fless (path_slack path_info) (path_slack crit_path_info)
                \<or> isnan (path_slack crit_path_info)
             then path_info else crit_path_info)
       cpds default_TimingPathInfo"

section \<open>Slack histograms\<close>

text \<open>
  Modelled from the spec: \<^verbatim>\<open>HistogramBucket\<close> is declared outside the file. A bucket is a
  range with an integer count; \<^verbatim>\<open>emplace_back(bucket_min, bucket_max)\<close> creates it with
  count zero.
\<close>

record HistogramBucket =
  min_value :: fval
  max_value :: fval
  count :: int

definition new_bucket :: "fval \<Rightarrow> fval \<Rightarrow> HistogramBucket" where
  "new_bucket bucket_min bucket_max =
     \<lparr>min_value = bucket_min, max_value = bucket_max, count = 0\<rparr>"

text \<open>The first loop: the least and the greatest slack, as a pair.\<close>

definition min_max_tag :: "TimingTag \<Rightarrow> fval \<times> fval \<Rightarrow> fval \<times> fval" where
  "min_max_tag tag mm =
     (let slack = time_value tag in (fmin (fst mm) slack, fmax (snd mm) slack))"

definition min_max_slack :: "NodeId list \<Rightarrow> (NodeId \<Rightarrow> TimingTag list) \<Rightarrow> fval \<times> fval" where
  "min_max_slack logical_outputs slacks =
     fold (\<lambda>node mm. fold min_max_tag (slacks node) mm) logical_outputs (PInf, MInf)"

text \<open>The second loop: \<open>n\<close> buckets from \<open>bucket_min\<close> upwards.\<close>

fun create_buckets :: "nat \<Rightarrow> fval \<Rightarrow> fval \<Rightarrow> HistogramBucket list" where
  "create_buckets 0 bucket_min bin_size = []"
| "create_buckets (Suc n) bucket_min bin_size =
     (let bucket_max = fadd bucket_min bin_size in
      new_bucket bucket_min bucket_max # create_buckets n bucket_max bin_size)"

text \<open>\<^verbatim>\<open>histogram[histogram.size()-1].max_value = max_slack\<close>\<close>

definition set_last_max :: "HistogramBucket list \<Rightarrow> fval \<Rightarrow> error + HistogramBucket list" where
  "set_last_max histogram max_slack =
     (if histogram = [] then Inl IndexOutOfRange
      else Inr (histogram[length histogram - 1 :=
                  (histogram ! (length histogram - 1))\<lparr>max_value := max_slack\<rparr>]))"

definition comp_bucket :: "HistogramBucket \<Rightarrow> fval \<Rightarrow> bool" where
  "comp_bucket bucket slack = fless (max_value bucket) slack"

text \<open>
  \<^verbatim>\<open>std::lower_bound\<close> is the binary search of the standard library on the range of
  \<open>len\<close> buckets that starts at index \<open>first\<close>; it returns an index, and the index
  \<open>length histogram\<close> is \<^verbatim>\<open>histogram.end()\<close>.
\<close>

function lower_bound :: "HistogramBucket list \<Rightarrow> fval \<Rightarrow> nat \<Rightarrow> nat \<Rightarrow> nat" where
  "lower_bound histogram slack first len =
     (if len = 0 then first
      else let half = len div 2; middle = first + half in
        if comp_bucket (histogram ! middle) slack
        then lower_bound histogram slack (middle + 1) (len - half - 1)
        else lower_bound histogram slack first half)"
  by pat_completeness auto
termination
  by (relation "measure (\<lambda>(histogram, slack, first, len). len)") auto

declare lower_bound.simps [simp del]

text \<open>The body of the counting loop, and the loops over the tags of a node and over the
  nodes.\<close>

definition count_slack :: "TimingTag \<Rightarrow> HistogramBucket list \<Rightarrow> error + HistogramBucket list" where
  "count_slack tag histogram =
     (let slack = time_value tag;
          iter = lower_bound histogram slack 0 (length histogram) in
      if iter = length histogram then Inl (AssertFailed ''iter != histogram.end()'')
      else Inr (histogram[iter := (histogram ! iter)\<lparr>count := count (histogram ! iter) + 1\<rparr>]))"

fun count_tags :: "TimingTag list \<Rightarrow> HistogramBucket list \<Rightarrow> error + HistogramBucket list" where
  "count_tags [] histogram = Inr histogram"
| "count_tags (tag # tags) histogram =
     (case count_slack tag histogram of
        Inl e \<Rightarrow> Inl e
      | Inr histogram' \<Rightarrow> count_tags tags histogram')"

fun count_nodes ::
  "NodeId list \<Rightarrow> (NodeId \<Rightarrow> TimingTag list) \<Rightarrow> HistogramBucket list
     \<Rightarrow> error + HistogramBucket list" where
  "count_nodes [] slacks histogram = Inr histogram"
| "count_nodes (node # nodes) slacks histogram =
     (case count_tags (slacks node) histogram of
        Inl e \<Rightarrow> Inl e
      | Inr histogram' \<Rightarrow> count_nodes nodes slacks histogram')"

definition create_setup_slack_histogram ::
  "NodeId list \<Rightarrow> (NodeId \<Rightarrow> TimingTag list) \<Rightarrow> nat \<Rightarrow> error + HistogramBucket list" where
  "create_setup_slack_histogram logical_outputs setup_slacks num_bins =
     (let (min_slack, max_slack) = min_max_slack logical_outputs setup_slacks;
          slack_range = fsub max_slack min_slack;
          bin_size = fdiv slack_range (to_float (real num_bins));
          histogram = create_buckets num_bins min_slack bin_size in
      case set_last_max histogram max_slack of
        Inl e \<Rightarrow> Inl e
      | Inr histogram' \<Rightarrow> count_nodes logical_outputs setup_slacks histogram')"

definition create_hold_slack_histogram ::
  "NodeId list \<Rightarrow> (NodeId \<Rightarrow> TimingTag list) \<Rightarrow> nat \<Rightarrow> error + HistogramBucket list" where
  "create_hold_slack_histogram logical_outputs hold_slacks num_bins =
     (let (min_slack, max_slack) = min_max_slack logical_outputs hold_slacks;
          slack_range = fsub max_slack min_slack;
          bin_size = fdiv slack_range (to_float (real num_bins));
          histogram = create_buckets num_bins min_slack bin_size in
      case set_last_max histogram max_slack of
        Inl e \<Rightarrow> Inl e
      | Inr histogram' \<Rightarrow> count_nodes logical_outputs hold_slacks histogram')"

section \<open>Worst hold slack of a domain pair\<close>

definition worst_slack_tag :: "DomainId \<Rightarrow> DomainId \<Rightarrow> TimingTag \<Rightarrow> fval \<Rightarrow> fval" where
  "worst_slack_tag launch capture tag worst_slack =
     (if launch_clock_domain tag = launch \<and> capture_clock_domain tag = capture
      then let slack = time_value tag in fmin worst_slack slack
      else worst_slack)"

definition find_hold_worst_slack ::
  "NodeId list \<Rightarrow> (NodeId \<Rightarrow> TimingTag list) \<Rightarrow> DomainId \<Rightarrow> DomainId \<Rightarrow> fval" where
  "find_hold_worst_slack logical_outputs hold_slacks launch capture =
     fold (\<lambda>node worst_slack. fold (worst_slack_tag launch capture) (hold_slacks node) worst_slack)
       logical_outputs PInf"

definition sec_to_nanosec :: "fval \<Rightarrow> fval" where
  "sec_to_nanosec seconds = fmul (Fin 1000000000) seconds"

text \<open>
  Of \<^verbatim>\<open>print_hold_timing_summary\<close> the model keeps the lines of the two tables of worst hold
  slacks per constraint: a line is the launch domain, the capture domain and the number
  printed. The lines for the negative-slack totals and the histogram are left out.
\<close>

datatype hold_line = WorstHoldSlack DomainId DomainId fval

definition intra_domain_lines ::
  "DomainId list \<Rightarrow> NodeId list \<Rightarrow> (NodeId \<Rightarrow> TimingTag list) \<Rightarrow> hold_line list" where
  "intra_domain_lines clock_domains logical_outputs hold_slacks =
     concat (map (\<lambda>domain.
       let worst_slack = find_hold_worst_slack logical_outputs hold_slacks domain domain in
       if worst_slack = PInf then []
       else [WorstHoldSlack domain domain (sec_to_nanosec worst_slack)]) clock_domains)"

definition inter_domain_lines ::
  "DomainId list \<Rightarrow> NodeId list \<Rightarrow> (NodeId \<Rightarrow> TimingTag list) \<Rightarrow> hold_line list" where
  "inter_domain_lines clock_domains logical_outputs hold_slacks =
     concat (map (\<lambda>launch_domain. concat (map (\<lambda>capture_domain.
       if launch_domain \<noteq> capture_domain then
         let worst_slack =
               find_hold_worst_slack logical_outputs hold_slacks launch_domain capture_domain in
         if worst_slack = PInf then []
         else [WorstHoldSlack launch_domain capture_domain (sec_to_nanosec worst_slack)]
       else []) clock_domains)) clock_domains)"

definition print_hold_timing_summary ::
  "DomainId list \<Rightarrow> NodeId list \<Rightarrow> (NodeId \<Rightarrow> TimingTag list) \<Rightarrow> hold_line list" where
  "print_hold_timing_summary clock_domains logical_outputs hold_slacks =
     (if length clock_domains > 1
      then intra_domain_lines clock_domains logical_outputs hold_slacks
           @ inter_domain_lines clock_domains logical_outputs hold_slacks
      else [])"

section \<open>Clock fanouts\<close>

text \<open>\<^verbatim>\<open>fanouts[d] += 1\<close> on a \<^verbatim>\<open>std::map\<close>: a missing key starts at zero.\<close>

definition add_fanout :: "TimingTag \<Rightarrow> (DomainId \<rightharpoonup> nat) \<Rightarrow> (DomainId \<rightharpoonup> nat)" where
  "add_fanout tag fanouts =
     (let d = launch_clock_domain tag in
      fanouts(d \<mapsto> (case fanouts d of None \<Rightarrow> 0 | Some c \<Rightarrow> c) + 1))"

definition count_node_fanouts ::
  "(NodeId \<Rightarrow> NodeType) \<Rightarrow> (NodeId \<Rightarrow> TagType \<Rightarrow> TimingTag list) \<Rightarrow> NodeId
     \<Rightarrow> (DomainId \<rightharpoonup> nat) \<Rightarrow> (DomainId \<rightharpoonup> nat)" where
  "count_node_fanouts node_type setup_tags node fanouts =
     (let type = node_type node in
      if type = SOURCE \<or> type = SINK then
        fold add_fanout (setup_tags node DATA_REQUIRED)
          (fold add_fanout (setup_tags node DATA_ARRIVAL) fanouts)
      else fanouts)"

definition count_clock_fanouts ::
  "NodeId list \<Rightarrow> (NodeId \<Rightarrow> NodeType) \<Rightarrow> (NodeId \<Rightarrow> TagType \<Rightarrow> TimingTag list)
     \<Rightarrow> (DomainId \<rightharpoonup> nat)" where
  "count_clock_fanouts nodes node_type setup_tags =
     fold (count_node_fanouts node_type setup_tags) nodes Map.empty"

section \<open>Criticality\<close>

text \<open>
  Modelled from the spec: the clustered netlist, the lookup of the atom pins of a cluster pin
  (\<^verbatim>\<open>find_clb_pin_connected_atom_pins\<close> with its \<^verbatim>\<open>pb_gpin_lookup\<close>) and the analyser's
  \<^verbatim>\<open>setup_pin_criticality\<close> are outside the file; they are arguments.
\<close>

type_synonym AtomPinId = nat

record t_net_pin =
  block :: int
  block_pin :: int

definition calculate_clb_net_pin_criticality ::
  "(AtomPinId \<Rightarrow> fval) \<Rightarrow> (int \<Rightarrow> int \<Rightarrow> AtomPinId list) \<Rightarrow> (int \<Rightarrow> int \<Rightarrow> t_net_pin)
     \<Rightarrow> int \<Rightarrow> int \<Rightarrow> fval" where
  "calculate_clb_net_pin_criticality setup_pin_criticality find_clb_pin_connected_atom_pins
       clbs_nlist inet ipin =
     (let net_pin = clbs_nlist inet ipin;
          atom_pins = find_clb_pin_connected_atom_pins (block net_pin) (block_pin net_pin) in
      fold (\<lambda>atom_pin clb_pin_crit. fmax clb_pin_crit (setup_pin_criticality atom_pin))
        atom_pins (Fin 0))"

definition CRITICALITY_ROUND_OFF_TOLERANCE :: fval where
  "CRITICALITY_ROUND_OFF_TOLERANCE = float_of_double (to_double (1 / 10000))"

text \<open>The shift of the slack and of the required time by the most negative slack of the
  domain pair: the result is the pair \<open>(slack, max_req)\<close> after the \<^verbatim>\<open>if\<close>.\<close>

definition shift_by_worst_slack :: "fval \<Rightarrow> fval \<Rightarrow> fval \<Rightarrow> error + fval \<times> fval" where
  "shift_by_worst_slack worst_slack slack max_req =
     (if fless worst_slack (Fin 0) then
        let shift = fneg worst_slack in
        if \<not> fless (Fin 0) shift then Inl (AssertFailed ''shift > 0.'')
        else Inr (fadd slack shift, fadd max_req shift)
      else Inr (slack, max_req))"

text \<open>\<^verbatim>\<open>float crit = 1. - (slack / max_req)\<close>: the quotient of the two floats is a float,
  the difference is taken in \<^verbatim>\<open>double\<close> and converted to \<^verbatim>\<open>float\<close>.\<close>

definition unclamped_criticality :: "fval \<Rightarrow> fval \<Rightarrow> fval" where
  "unclamped_criticality slack max_req = float_of_double (dsub (Fin 1) (fdiv slack max_req))"

text \<open>The two soft checks, whose bounds are computed in \<^verbatim>\<open>double\<close>, and the clamp.\<close>

definition check_and_clamp :: "fval \<Rightarrow> error + fval" where
  "check_and_clamp crit =
     (if \<not> fle (dsub (Fin 0) CRITICALITY_ROUND_OFF_TOLERANCE) crit
      then Inl (AssertFailed ''Criticality should never be negative'')
      else if \<not> fle crit (dadd (Fin 1) CRITICALITY_ROUND_OFF_TOLERANCE)
      then Inl (AssertFailed ''Criticality should never be greather than one'')
      else Inr (fmin (Fin 1) (fmax (Fin 0) crit)))"

text \<open>The body of the loop over the tags: the criticality of one tag.\<close>

definition tag_criticality ::
  "(DomainPair \<rightharpoonup> fval) \<Rightarrow> (DomainPair \<rightharpoonup> fval) \<Rightarrow> TimingTag \<Rightarrow> error + fval" where
  "tag_criticality domains_max_req domains_worst_slack tag =
     (if tag_type tag \<noteq> SLACK
      then Inl (AssertFailed ''Tags must be slacks to calculate criticality'')
      else
        let slack = time_value tag;
            domain_pair = (launch_clock_domain tag, capture_clock_domain tag) in
        case domains_max_req domain_pair of
          None \<Rightarrow> Inl (AssertFailed ''Require the maximum required time for clock domain pair'')
        | Some max_req \<Rightarrow>
            (case domains_worst_slack domain_pair of
               None \<Rightarrow> Inl (AssertFailed ''Require the worst slack for clock domain pair'')
             | Some worst_slack \<Rightarrow>
                 (case shift_by_worst_slack worst_slack slack max_req of
                    Inl e \<Rightarrow> Inl e
                  | Inr (slack', max_req') \<Rightarrow>
                      if \<not> fless (Fin 0) max_req' then Inl (AssertFailed ''max_req > 0.'')
                      else check_and_clamp (unclamped_criticality slack' max_req'))))"

fun max_criticality ::
  "(DomainPair \<rightharpoonup> fval) \<Rightarrow> (DomainPair \<rightharpoonup> fval) \<Rightarrow> TimingTag list \<Rightarrow> fval \<Rightarrow> error + fval" where
  "max_criticality domains_max_req domains_worst_slack [] max_crit = Inr max_crit"
| "max_criticality domains_max_req domains_worst_slack (tag # tags) max_crit =
     (case tag_criticality domains_max_req domains_worst_slack tag of
        Inl e \<Rightarrow> Inl e
      | Inr crit \<Rightarrow>
          max_criticality domains_max_req domains_worst_slack tags (fmax max_crit crit))"

definition calc_relaxed_criticality ::
  "(DomainPair \<rightharpoonup> fval) \<Rightarrow> (DomainPair \<rightharpoonup> fval) \<Rightarrow> TimingTag list \<Rightarrow> error + fval" where
  "calc_relaxed_criticality domains_max_req domains_worst_slack tags =
     (case max_criticality domains_max_req domains_worst_slack tags (Fin 0) of
        Inl e \<Rightarrow> Inl e
      | Inr max_crit \<Rightarrow>
          if \<not> fle (Fin 0) max_crit
          then Inl (AssertFailed ''Criticality should never be negative'')
          else if \<not> fle max_crit (Fin 1)
          then Inl (AssertFailed ''Criticality should never be greather than one'')
          else Inr max_crit)"

section \<open>Reference notions and example designs\<close>

text \<open>A slack tag of a domain pair with a finite time.\<close>

definition slack_tag :: "DomainId \<Rightarrow> DomainId \<Rightarrow> real \<Rightarrow> TimingTag" where
  "slack_tag launch capture t =
     \<lparr>tag_type = SLACK, launch_clock_domain = launch, capture_clock_domain = capture,
      time_value = Fin t\<rparr>"

text \<open>The sum of a list of floats, added from the left to zero, every addition rounded.\<close>

definition float_sum :: "fval list \<Rightarrow> fval" where
  "float_sum xs = fold (\<lambda>x acc. fadd acc x) xs (Fin 0)"

text \<open>Every partial sum of the numbers \<open>xs\<close>, added from the left to \<open>a\<close>, is a float:
  no addition rounds.\<close>

fun exact_sums :: "real list \<Rightarrow> real \<Rightarrow> bool" where
  "exact_sums [] a = True"
| "exact_sums (x # xs) a = (to_float (a + x) = Fin (a + x) \<and> exact_sums xs (a + x))"

text \<open>Three slacks of one output node whose sum is a float and whose running sum is
  not that float: -2^24, -1 and -1.\<close>

definition example_rounding_slacks :: "NodeId \<Rightarrow> TimingTag list" where
  "example_rounding_slacks node =
     [slack_tag 0 0 (- 16777216), slack_tag 0 0 (- 1), slack_tag 0 0 (- 1)]"

text \<open>A design with two output nodes: the first has slacks -2 and 3, the second -5.\<close>

definition example_slacks :: "NodeId \<Rightarrow> TimingTag list" where
  "example_slacks node =
     (if node = 0 then [slack_tag 0 0 (- 2), slack_tag 0 1 3]
      else if node = 1 then [slack_tag 1 1 (- 5)] else [])"

text \<open>Three domain pairs; the second and the third tie at the least slack.\<close>

definition example_path :: "DomainId \<Rightarrow> DomainId \<Rightarrow> real \<Rightarrow> real \<Rightarrow> TimingPathInfo" where
  "example_path launch capture d s =
     \<lparr>path_launch_domain = launch, path_capture_domain = capture,
      path_delay = Fin d, path_slack = Fin s\<rparr>"

definition example_cpds :: "TimingPathInfo list" where
  "example_cpds =
     [example_path 0 0 3 (1 / 2), example_path 0 1 4 (- (2 / 10)), example_path 1 1 5 (- (2 / 10))]"

text \<open>The tags of the output nodes that belong to a domain pair.\<close>

definition matching_tags ::
  "NodeId list \<Rightarrow> (NodeId \<Rightarrow> TimingTag list) \<Rightarrow> DomainId \<Rightarrow> DomainId \<Rightarrow> TimingTag list" where
  "matching_tags logical_outputs slacks launch capture =
     filter (\<lambda>tag. launch_clock_domain tag = launch \<and> capture_clock_domain tag = capture)
       (visited_tags logical_outputs slacks)"

text \<open>A cluster pin with three atom pins, of criticality 0.3, 0.9 and 0.1; every other
  cluster pin has none.\<close>

definition example_atom_pins :: "int \<Rightarrow> int \<Rightarrow> AtomPinId list" where
  "example_atom_pins blk pin = (if blk = 7 \<and> pin = 2 then [10, 11, 12] else [])"

definition example_pin_criticality :: "AtomPinId \<Rightarrow> fval" where
  "example_pin_criticality atom_pin =
     (if atom_pin = 10 then Fin (3 / 10) else if atom_pin = 11 then Fin (9 / 10)
      else Fin (1 / 10))"

definition example_clbs_nlist :: "int \<Rightarrow> int \<Rightarrow> t_net_pin" where
  "example_clbs_nlist inet ipin =
     (if inet = 0 \<and> ipin = 1 then \<lparr>block = 7, block_pin = 2\<rparr> else \<lparr>block = 3, block_pin = 0\<rparr>)"

text \<open>The count a map of fanouts holds for a domain, the number of tags of a list that a
  domain launches, and the units a node adds to the fanout of a domain.\<close>

definition fanout_of :: "(DomainId \<rightharpoonup> nat) \<Rightarrow> DomainId \<Rightarrow> nat" where
  "fanout_of fanouts d = (case fanouts d of None \<Rightarrow> 0 | Some c \<Rightarrow> c)"

definition launched_by :: "DomainId \<Rightarrow> TimingTag list \<Rightarrow> nat" where
  "launched_by d tags = length (filter (\<lambda>tag. launch_clock_domain tag = d) tags)"

definition fanout_units ::
  "(NodeId \<Rightarrow> NodeType) \<Rightarrow> (NodeId \<Rightarrow> TagType \<Rightarrow> TimingTag list) \<Rightarrow> DomainId \<Rightarrow> NodeId \<Rightarrow> nat" where
  "fanout_units node_type setup_tags d node =
     (if node_type node = SOURCE \<or> node_type node = SINK
      then launched_by d (setup_tags node DATA_ARRIVAL)
           + launched_by d (setup_tags node DATA_REQUIRED)
      else 0)"

text \<open>A source, a sink and an input pin; every node has one arrival and one required tag,
  launched by domain 0 on nodes 0 and 2 and by domain 1 on node 1.\<close>

definition example_node_type :: "NodeId \<Rightarrow> NodeType" where
  "example_node_type node = (if node = 0 then SOURCE else if node = 1 then SINK else IPIN)"

definition example_tag :: "TagType \<Rightarrow> DomainId \<Rightarrow> TimingTag" where
  "example_tag type launch =
     \<lparr>tag_type = type, launch_clock_domain = launch, capture_clock_domain = launch,
      time_value = Fin 1\<rparr>"

definition example_setup_tags :: "NodeId \<Rightarrow> TagType \<Rightarrow> TimingTag list" where
  "example_setup_tags node type =
     (if type = DATA_ARRIVAL \<or> type = DATA_REQUIRED then [example_tag type (int node mod 2)] else [])"

text \<open>What the counting loops do to a histogram after \<open>k\<close> slacks: the buckets keep their
  number and their upper bounds, the counts grow by \<open>k\<close> in total and stay non-negative.\<close>

definition counted :: "HistogramBucket list \<Rightarrow> nat \<Rightarrow> HistogramBucket list \<Rightarrow> bool" where
  "counted h k h' \<longleftrightarrow>
     length h' = length h \<and> map max_value h' = map max_value h
     \<and> sum_list (map count h') = sum_list (map count h) + int k
     \<and> ((\<forall>b \<in> set h. 0 \<le> count b) \<longrightarrow> (\<forall>b \<in> set h'. 0 \<le> count b))"

text \<open>Five slacks on two output nodes: -3, -1, 0 and 2, 4.\<close>

definition example_histogram_slacks :: "NodeId \<Rightarrow> TimingTag list" where
  "example_histogram_slacks node =
     (if node = 0 then [slack_tag 0 0 (- 3), slack_tag 0 0 (- 1), slack_tag 0 0 0]
      else [slack_tag 0 0 2, slack_tag 0 0 4])"

text \<open>The domain pair of a tag, the key of the two maps of aggregates.\<close>

definition domain_pair_of :: "TimingTag \<Rightarrow> DomainPair" where
  "domain_pair_of tag = (launch_clock_domain tag, capture_clock_domain tag)"

text \<open>
  The slack and the required time of a tag after the shift, and the criticality of the tag
  before the clamp, as the floating-point operations of the function give them; there are
  none when an entry of a map is missing.
\<close>

definition shifted_values ::
  "(DomainPair \<rightharpoonup> fval) \<Rightarrow> (DomainPair \<rightharpoonup> fval) \<Rightarrow> TimingTag \<Rightarrow> (fval \<times> fval) option" where
  "shifted_values domains_max_req domains_worst_slack tag =
     (case (domains_max_req (domain_pair_of tag), domains_worst_slack (domain_pair_of tag)) of
        (Some max_req, Some worst_slack) \<Rightarrow>
          (case shift_by_worst_slack worst_slack (time_value tag) max_req of
             Inr sm \<Rightarrow> Some sm
           | Inl e \<Rightarrow> None)
      | _ \<Rightarrow> None)"

definition criticality_before_clamp ::
  "(DomainPair \<rightharpoonup> fval) \<Rightarrow> (DomainPair \<rightharpoonup> fval) \<Rightarrow> TimingTag \<Rightarrow> fval option" where
  "criticality_before_clamp domains_max_req domains_worst_slack tag =
     (case shifted_values domains_max_req domains_worst_slack tag of
        Some (slack, max_req) \<Rightarrow> Some (unclamped_criticality slack max_req)
      | None \<Rightarrow> None)"

text \<open>
  The three preconditions of the criticality of a tag: the tag is a slack, both maps have an
  entry for its domain pair, and the required time after the shift is positive.
\<close>

definition stated_preconditions ::
  "(DomainPair \<rightharpoonup> fval) \<Rightarrow> (DomainPair \<rightharpoonup> fval) \<Rightarrow> TimingTag \<Rightarrow> bool" where
  "stated_preconditions domains_max_req domains_worst_slack tag =
     (tag_type tag = SLACK \<and>
      (case shifted_values domains_max_req domains_worst_slack tag of
         Some (slack, max_req) \<Rightarrow> fless (Fin 0) max_req
       | None \<Rightarrow> False))"

text \<open>The criticality before the clamp lies within the round-off tolerance of the range from
  zero to one.\<close>

definition within_tolerance ::
  "(DomainPair \<rightharpoonup> fval) \<Rightarrow> (DomainPair \<rightharpoonup> fval) \<Rightarrow> TimingTag \<Rightarrow> bool" where
  "within_tolerance domains_max_req domains_worst_slack tag =
     (case criticality_before_clamp domains_max_req domains_worst_slack tag of
        Some crit \<Rightarrow>
          fle (dsub (Fin 0) CRITICALITY_ROUND_OFF_TOLERANCE) crit
          \<and> fle crit (dadd (Fin 1) CRITICALITY_ROUND_OFF_TOLERANCE)
      | None \<Rightarrow> False)"

text \<open>Nanoseconds in seconds, and a slack tag whose time is the float nearest to a number of
  nanoseconds.\<close>

definition ns :: "real \<Rightarrow> real" where
  "ns x = x / 1000000000"

definition ns_slack_tag :: "DomainId \<Rightarrow> DomainId \<Rightarrow> real \<Rightarrow> TimingTag" where
  "ns_slack_tag launch capture t =
     \<lparr>tag_type = SLACK, launch_clock_domain = launch, capture_clock_domain = capture,
      time_value = to_float (ns t)\<rparr>"

text \<open>Aggregates for the one domain pair of a design: a required time of 10 ns with a worst
  slack of 2 ns and of zero; a required time of 12 with a worst slack of -4.\<close>

definition example_max_req :: "DomainPair \<rightharpoonup> fval" where
  "example_max_req = [(0, 0) \<mapsto> to_float (ns 10)]"

definition example_worst_slack :: "DomainPair \<rightharpoonup> fval" where
  "example_worst_slack = [(0, 0) \<mapsto> to_float (ns 2)]"

definition example_zero_worst_slack :: "DomainPair \<rightharpoonup> fval" where
  "example_zero_worst_slack = [(0, 0) \<mapsto> Fin 0]"

definition example_late_max_req :: "DomainPair \<rightharpoonup> fval" where
  "example_late_max_req = [(0, 0) \<mapsto> Fin 12]"

definition example_negative_worst_slack :: "DomainPair \<rightharpoonup> fval" where
  "example_negative_worst_slack = [(0, 0) \<mapsto> Fin (- 4)]"

section \<open>Properties of the floats\<close>

lemma fle_trans: "fle a b \<Longrightarrow> fle b c \<Longrightarrow> fle a c"
  by (cases a; cases b; cases c) simp_all

lemma fle_refl: "\<not> isnan a \<Longrightarrow> fle a a"
  by (cases a) simp_all

lemma not_fless_fle: "\<not> isnan a \<Longrightarrow> \<not> isnan b \<Longrightarrow> \<not> fless a b \<longleftrightarrow> fle b a"
  by (cases a; cases b) auto

lemma fless_imp_fle: "fless a b \<Longrightarrow> fle a b"
  by (cases a; cases b) auto

lemma fless_not_nan: "fless a b \<Longrightarrow> \<not> isnan a \<and> \<not> isnan b"
  by (cases a; cases b) auto

lemma fle_not_nan: "fle a b \<Longrightarrow> \<not> isnan a \<and> \<not> isnan b"
  by (cases a; cases b) auto

lemma fless_fle_trans: "fless a b \<Longrightarrow> fle b c \<Longrightarrow> fless a c"
  by (cases a; cases b; cases c) simp_all

lemma fmax_Fin: "fmax (Fin a) (Fin b) = Fin (max a b)"
  by (simp add: fmax_def max_def)

lemma Max_insert_max:
  "finite S \<Longrightarrow> Max (insert (max a c) S) = Max (insert a (insert c S))" for a :: real
  by (cases "S = {}") (simp_all add: max.assoc)

lemma fold_fmax_Fin:
  "map crit pins = map Fin cs \<Longrightarrow>
   fold (\<lambda>pin c. fmax c (crit pin)) pins (Fin a) = Fin (Max (insert a (set cs)))"
proof (induction pins arbitrary: a cs)
  case Nil
  then show ?case by simp
next
  case (Cons p pins)
  then obtain c cs' where cs: "cs = c # cs'" "crit p = Fin c" "map crit pins = map Fin cs'"
    by (cases cs) auto
  have "fold (\<lambda>pin c. fmax c (crit pin)) pins (Fin (max a c))
          = Fin (Max (insert (max a c) (set cs')))"
    using cs(3) by (rule Cons.IH)
  then show ?case using cs(1,2) by (simp add: fmax_Fin Max_insert_max)
qed

lemma fle_fless_trans: "fle a b \<Longrightarrow> fless b c \<Longrightarrow> fless a c"
  by (cases a; cases b; cases c) simp_all

lemma fmax_not_nan: "\<not> isnan a \<Longrightarrow> \<not> isnan (fmax a b)"
  by (cases a; cases b) (auto simp: fmax_def)

lemma fmax_ge_left: "\<not> isnan a \<Longrightarrow> fle a (fmax a b)"
  by (cases a; cases b) (auto simp: fmax_def)

lemma fmax_not_below_right: "\<not> fless (fmax a b) b"
  by (cases a; cases b) (auto simp: fmax_def)

subsection \<open>Rounding is monotone and keeps the numbers of the format\<close>

lemma rne_of_int: "rne (of_int n) = n"
  by (simp add: rne_def)

lemma rne_bounds: "\<lfloor>x\<rfloor> \<le> rne x \<and> rne x \<le> \<lfloor>x\<rfloor> + 1"
  by (simp add: rne_def Let_def)

lemma rne_mono: "x \<le> y \<Longrightarrow> rne x \<le> rne y"
proof -
  assume xy: "x \<le> y"
  then have f: "\<lfloor>x\<rfloor> \<le> \<lfloor>y\<rfloor>" by (rule floor_mono)
  show ?thesis
  proof (cases "\<lfloor>x\<rfloor> = \<lfloor>y\<rfloor>")
    case True
    then have "x - of_int \<lfloor>x\<rfloor> \<le> y - of_int \<lfloor>y\<rfloor>" using xy by simp
    then show ?thesis using True by (auto simp: rne_def Let_def)
  next
    case False
    then have "\<lfloor>x\<rfloor> + 1 \<le> \<lfloor>y\<rfloor>" using f by simp
    then show ?thesis using rne_bounds [of x] rne_bounds [of y] by linarith
  qed
qed

lemma rne_le_int: "x \<le> of_int n \<Longrightarrow> rne x \<le> n"
  using rne_mono [of x "of_int n"] by (simp add: rne_of_int)

lemma rne_ge_int: "of_int n \<le> x \<Longrightarrow> n \<le> rne x"
  using rne_mono [of "of_int n" x] by (simp add: rne_of_int)

lemma binade_bounds: "k \<le> binade n k a \<and> binade n k a \<le> k + int n"
proof (induction n arbitrary: k)
  case 0
  then show ?case by simp
next
  case (Suc n)
  show ?case using Suc [of "k + 1"] by simp
qed

lemma binade_upper: "binade n k a < k + int n \<Longrightarrow> a < 2 powi (binade n k a + 1)"
proof (induction n arbitrary: k)
  case 0
  then show ?case by simp
next
  case (Suc n)
  show ?case
  proof (cases "a < 2 powi (k + 1)")
    case True
    then show ?thesis by simp
  next
    case False
    then have "binade n (k + 1) a < k + 1 + int n" using Suc.prems by simp
    then have "a < 2 powi (binade n (k + 1) a + 1)" by (rule Suc.IH)
    then show ?thesis using False by simp
  qed
qed

lemma binade_lower: "k < binade n k a \<Longrightarrow> 2 powi (binade n k a) \<le> a"
proof (induction n arbitrary: k)
  case 0
  then show ?case by simp
next
  case (Suc n)
  show ?case
  proof (cases "a < 2 powi (k + 1)")
    case True
    then show ?thesis using Suc.prems by simp
  next
    case False
    show ?thesis
    proof (cases "k + 1 < binade n (k + 1) a")
      case True
      then have "2 powi (binade n (k + 1) a) \<le> a" by (rule Suc.IH)
      then show ?thesis using False by simp
    next
      case nl: False
      then have "binade n (k + 1) a = k + 1" using binade_bounds [of "k + 1" n a] by simp
      then show ?thesis using False by simp
    qed
  qed
qed

lemma binade_mono: "a \<le> b \<Longrightarrow> binade n k a \<le> binade n k b"
proof (induction n arbitrary: k)
  case 0
  then show ?case by simp
next
  case (Suc n)
  show ?case
  proof (cases "b < 2 powi (k + 1)")
    case True
    then show ?thesis using Suc.prems by simp
  next
    case False
    show ?thesis
    proof (cases "a < 2 powi (k + 1)")
      case True
      then show ?thesis using False binade_bounds [of "k + 1" n b] by simp
    next
      case fa: False
      then show ?thesis using False Suc.IH [OF Suc.prems, of "k + 1"] by simp
    qed
  qed
qed

lemma binade_eq:
  "k \<le> r \<Longrightarrow> r < k + int n \<Longrightarrow> r = k \<or> 2 powi r \<le> a \<Longrightarrow> a < 2 powi (r + 1)
     \<Longrightarrow> binade n k a = r"
proof (induction n arbitrary: k)
  case 0
  then show ?case by simp
next
  case (Suc n)
  show ?case
  proof (cases "r = k")
    case True
    then show ?thesis using Suc.prems by simp
  next
    case False
    then have kr: "k + 1 \<le> r" using Suc.prems(1) by simp
    then have "2 powi (k + 1) \<le> (2::real) powi r" by (intro power_int_increasing) simp_all
    moreover have "2 powi r \<le> a" using Suc.prems(3) False by simp
    ultimately have na: "\<not> a < 2 powi (k + 1)" by simp
    have "binade n (k + 1) a = r"
    proof (rule Suc.IH)
      show "k + 1 \<le> r" by (rule kr)
      show "r < k + 1 + int n" using Suc.prems(2) by simp
      show "r = k + 1 \<or> 2 powi r \<le> a" using Suc.prems(3) False by simp
      show "a < 2 powi (r + 1)" by (rule Suc.prems(4))
    qed
    then show ?thesis using na by simp
  qed
qed

lemma two_powi_pos: "0 < (2::real) powi k"
  by (simp add: zero_less_power_int)

lemma two_powi_add: "(2::real) powi (m + n) = 2 powi m * 2 powi n"
  by (simp add: power_int_add)

lemma two_powi_diff: "(2::real) powi (m - n) = 2 powi m / 2 powi n"
  by (simp add: power_int_diff)

lemma round_mag_nonneg: "0 \<le> a \<Longrightarrow> 0 \<le> round_mag p emin emax a"
proof -
  assume a: "0 \<le> a"
  let ?q = "(2::real) powi (binade (nat (emax - emin + 1)) emin a - int p + 1)"
  have "of_int 0 \<le> a / ?q" using a two_powi_pos [of "binade (nat (emax - emin + 1)) emin a - int p + 1"]
    by simp
  then have "0 \<le> rne (a / ?q)" by (rule rne_ge_int)
  then show ?thesis using two_powi_pos [of "binade (nat (emax - emin + 1)) emin a - int p + 1"]
    by (simp add: round_mag_def Let_def)
qed

lemma round_mag_mono:
  assumes "1 \<le> p" and "a \<le> b"
  shows "round_mag p emin emax a \<le> round_mag p emin emax b"
proof -
  let ?n = "nat (emax - emin + 1)"
  let ?ka = "binade ?n emin a"
  let ?kb = "binade ?n emin b"
  let ?qa = "(2::real) powi (?ka - int p + 1)"
  let ?qb = "(2::real) powi (?kb - int p + 1)"
  have qa: "0 < ?qa" and qb: "0 < ?qb" by (rule two_powi_pos)+
  have k: "?ka \<le> ?kb" using assms(2) by (rule binade_mono)
  show ?thesis
  proof (cases "?ka = ?kb")
    case True
    have "a / ?qa \<le> b / ?qa" using assms(2) qa by (simp add: divide_right_mono)
    then have "rne (a / ?qa) \<le> rne (b / ?qa)" by (rule rne_mono)
    then have "of_int (rne (a / ?qa)) * ?qa \<le> of_int (rne (b / ?qa)) * ?qa"
      using qa by simp
    then show ?thesis using True by (simp add: round_mag_def Let_def)
  next
    case False
    then have lt: "?ka < ?kb" using k by simp
    have "?kb \<le> emin + int ?n" using binade_bounds [of emin ?n b] by simp
    then have "?ka < emin + int ?n" using lt by simp
    then have ua: "a < 2 powi (?ka + 1)" by (rule binade_upper)
    have "emin \<le> ?ka" using binade_bounds [of emin ?n a] by simp
    then have "emin < ?kb" using lt by simp
    then have lb: "2 powi ?kb \<le> b" by (rule binade_lower)
    have e1: "(2::real) powi (?ka + 1) = of_int (2 ^ p) * ?qa"
    proof -
      have "(2::real) powi (?ka + 1) = 2 powi (int p + (?ka - int p + 1))" by simp
      also have "\<dots> = 2 powi (int p) * ?qa" by (rule two_powi_add)
      finally show ?thesis by (simp add: power_int_of_nat)
    qed
    have "a / ?qa \<le> of_int (2 ^ p)"
      using ua qa e1 by (simp add: pos_divide_le_eq)
    then have "rne (a / ?qa) \<le> 2 ^ p" by (rule rne_le_int)
    then have "of_int (rne (a / ?qa)) * ?qa \<le> of_int (2 ^ p) * ?qa"
      using qa by simp
    then have A: "round_mag p emin emax a \<le> 2 powi (?ka + 1)"
      using e1 by (simp add: round_mag_def Let_def)
    have e2: "(2::real) powi ?kb = of_int (2 ^ (p - 1)) * ?qb"
    proof -
      have "(2::real) powi ?kb = 2 powi (int (p - 1) + (?kb - int p + 1))"
        using assms(1) by simp
      also have "\<dots> = 2 powi (int (p - 1)) * ?qb" by (rule two_powi_add)
      finally show ?thesis by (simp add: power_int_of_nat)
    qed
    have "of_int (2 ^ (p - 1)) \<le> b / ?qb"
      using lb qb e2 by (simp add: pos_le_divide_eq)
    then have "2 ^ (p - 1) \<le> rne (b / ?qb)" by (rule rne_ge_int)
    then have "of_int (2 ^ (p - 1)) * ?qb \<le> of_int (rne (b / ?qb)) * ?qb"
      using qb by simp
    then have B: "2 powi ?kb \<le> round_mag p emin emax b"
      using e2 by (simp add: round_mag_def Let_def)
    have "(2::real) powi (?ka + 1) \<le> 2 powi ?kb"
      using lt by (intro power_int_increasing) simp_all
    then show ?thesis using A B by linarith
  qed
qed

lemma round_mag_zero: "round_mag p emin emax 0 = 0"
  by (simp add: round_mag_def Let_def rne_def)

lemma round_to_not_nan: "\<not> isnan (round_to p emin emax x)"
  by (simp add: round_to_def Let_def)

lemma round_to_mono:
  assumes "1 \<le> p" and "x \<le> y"
  shows "fle (round_to p emin emax x) (round_to p emin emax y)"
proof -
  let ?m = "round_mag p emin emax"
  have T: "0 < (2::real) powi (emax + 1)" by (rule two_powi_pos)
  consider "0 \<le> x" | "y < 0" | "x < 0" "0 \<le> y" by linarith
  then show ?thesis
  proof cases
    case 1
    then have "\<bar>x\<bar> \<le> \<bar>y\<bar>" using assms(2) by simp
    then have "?m \<bar>x\<bar> \<le> ?m \<bar>y\<bar>" using assms(1) by (intro round_mag_mono)
    then show ?thesis using 1 assms(2) by (auto simp: round_to_def Let_def)
  next
    case 2
    then have "\<bar>y\<bar> \<le> \<bar>x\<bar>" using assms(2) by simp
    then have "?m \<bar>y\<bar> \<le> ?m \<bar>x\<bar>" using assms(1) by (intro round_mag_mono)
    then show ?thesis using 2 assms(2) by (auto simp: round_to_def Let_def)
  next
    case 3
    have "0 \<le> ?m \<bar>x\<bar>" "0 \<le> ?m \<bar>y\<bar>" by (simp_all add: round_mag_nonneg)
    then show ?thesis using 3 T by (cases "y = 0") (auto simp: round_to_def Let_def round_mag_zero)
  qed
qed

lemma round_mag_exact:
  assumes "1 \<le> p" and "0 \<le> n" and "n < 2 ^ p" and "emin - int p + 1 \<le> e"
  shows "round_mag p emin emax (of_int n * 2 powi e) = of_int n * 2 powi e"
proof -
  let ?a = "of_int n * (2::real) powi e"
  let ?N = "nat (emax - emin + 1)"
  let ?k = "binade ?N emin ?a"
  let ?q = "(2::real) powi (?k - int p + 1)"
  have q: "0 < ?q" by (rule two_powi_pos)
  have ke: "?k - int p + 1 \<le> e"
  proof (cases "?k = emin")
    case True
    then show ?thesis using assms(4) by simp
  next
    case False
    then have "emin < ?k" using binade_bounds [of emin ?N ?a] by simp
    then have "2 powi ?k \<le> ?a" by (rule binade_lower)
    moreover have "?a < of_int (2 ^ p) * 2 powi e"
      using assms(3) two_powi_pos [of e] by (simp del: of_int_power)
    moreover have "of_int (2 ^ p) * (2::real) powi e = 2 powi (int p + e)"
      by (simp add: two_powi_add power_int_of_nat)
    ultimately have "(2::real) powi ?k < 2 powi (int p + e)" by linarith
    then have "?k < int p + e"
      using power_int_increasing [of "int p + e" ?k "2::real"] by (cases "?k < int p + e") simp_all
    then show ?thesis by simp
  qed
  define d where "d = nat (e - (?k - int p + 1))"
  define q where "q = (2::real) powi (?k - int p + 1)"
  have q: "0 < q" unfolding q_def by (rule two_powi_pos)
  have de: "e = int d + (?k - int p + 1)" using ke by (simp add: d_def)
  have "(2::real) powi e = 2 powi (int d + (?k - int p + 1))" using de by simp
  also have "\<dots> = 2 ^ d * q" unfolding q_def by (simp only: two_powi_add power_int_of_nat)
  finally have pe: "(2::real) powi e = 2 ^ d * q" .
  have a: "?a = of_int (n * 2 ^ d) * q" by (simp add: pe)
  have "of_int (n * 2 ^ d) * q / q = (of_int (n * 2 ^ d) :: real)" using q by simp
  then have "?a / q = of_int (n * 2 ^ d)" by (simp only: a)
  then have "rne (?a / q) = n * 2 ^ d" by (simp only: rne_of_int)
  then have "of_int (rne (?a / q)) * q = ?a" by (simp only: a)
  then show ?thesis unfolding q_def by (simp add: round_mag_def Let_def)
qed

lemma round_to_exact:
  assumes "1 \<le> p" and "\<bar>n\<bar> < 2 ^ p" and "emin - int p + 1 \<le> e"
    and "\<bar>of_int n * 2 powi e\<bar> < (2::real) powi (emax + 1)"
  shows "round_to p emin emax (of_int n * 2 powi e) = Fin (of_int n * 2 powi e)"
proof -
  have abs: "\<bar>of_int n * (2::real) powi e\<bar> = of_int \<bar>n\<bar> * 2 powi e"
    using two_powi_pos [of e] by (simp add: abs_mult)
  have "round_mag p emin emax (of_int \<bar>n\<bar> * 2 powi e) = of_int \<bar>n\<bar> * 2 powi e"
    using assms(1,2,3) by (intro round_mag_exact) simp_all
  then have m: "round_mag p emin emax \<bar>of_int n * 2 powi e\<bar> = \<bar>of_int n * 2 powi e\<bar>"
    using abs by simp
  show ?thesis using assms(4) by (simp add: round_to_def Let_def m)
qed

lemma round_to_eval:
  assumes "emin \<le> k" and "k \<le> emax" and "k = emin \<or> 2 powi k \<le> \<bar>x\<bar>"
    and "\<bar>x\<bar> < 2 powi (k + 1)"
    and "rne (\<bar>x\<bar> / 2 powi (k - int p + 1)) = m"
    and "of_int m * 2 powi (k - int p + 1) < (2::real) powi (emax + 1)"
  shows "round_to p emin emax x
           = Fin (if 0 \<le> x then of_int m * 2 powi (k - int p + 1)
                  else - (of_int m * 2 powi (k - int p + 1)))"
proof -
  have "binade (nat (emax - emin + 1)) emin \<bar>x\<bar> = k"
    using assms(1,2,3,4) by (intro binade_eq) simp_all
  then have "round_mag p emin emax \<bar>x\<bar> = of_int m * 2 powi (k - int p + 1)"
    using assms(5) by (simp add: round_mag_def Let_def)
  then show ?thesis using assms(6) by (simp add: round_to_def Let_def)
qed

subsection \<open>The two formats\<close>

lemma to_float_mono: "x \<le> y \<Longrightarrow> fle (to_float x) (to_float y)"
  unfolding to_float_def by (rule round_to_mono) simp_all

lemma to_double_mono: "x \<le> y \<Longrightarrow> fle (to_double x) (to_double y)"
  unfolding to_double_def by (rule round_to_mono) simp_all

lemma to_float_not_nan: "\<not> isnan (to_float x)"
  unfolding to_float_def by (rule round_to_not_nan)

lemma to_double_not_nan: "\<not> isnan (to_double x)"
  unfolding to_double_def by (rule round_to_not_nan)

lemma to_float_exact:
  "\<bar>n\<bar> < 2 ^ 24 \<Longrightarrow> - 149 \<le> e \<Longrightarrow> \<bar>of_int n * 2 powi e\<bar> < (2::real) powi 128
     \<Longrightarrow> to_float (of_int n * 2 powi e) = Fin (of_int n * 2 powi e)"
  unfolding to_float_def by (rule round_to_exact) simp_all

lemma to_double_exact:
  "\<bar>n\<bar> < 2 ^ 53 \<Longrightarrow> - 1074 \<le> e \<Longrightarrow> \<bar>of_int n * 2 powi e\<bar> < (2::real) powi 1024
     \<Longrightarrow> to_double (of_int n * 2 powi e) = Fin (of_int n * 2 powi e)"
  unfolding to_double_def by (rule round_to_exact) simp_all

lemma to_float_int: "\<bar>n\<bar> < 2 ^ 24 \<Longrightarrow> to_float (of_int n) = Fin (of_int n)"
  using to_float_exact [of n 0] by simp

lemma to_double_int: "\<bar>n\<bar> < 2 ^ 53 \<Longrightarrow> to_double (of_int n) = Fin (of_int n)"
  using to_double_exact [of n 0] by simp

lemma to_float_0: "to_float 0 = Fin 0"
  using to_float_int [of 0] by simp

lemma to_float_1: "to_float 1 = Fin 1"
  using to_float_int [of 1] by simp

lemma to_double_0: "to_double 0 = Fin 0"
  using to_double_int [of 0] by simp

lemma to_double_1: "to_double 1 = Fin 1"
  using to_double_int [of 1] by simp

lemma to_float_eval:
  assumes "- 126 \<le> k" and "k \<le> 127" and "k = - 126 \<or> 2 powi k \<le> \<bar>x\<bar>"
    and "\<bar>x\<bar> < 2 powi (k + 1)"
    and "rne (\<bar>x\<bar> / 2 powi (k - 23)) = m"
    and "of_int m * 2 powi (k - 23) < (2::real) powi 128"
  shows "to_float x = Fin (if 0 \<le> x then of_int m * 2 powi (k - 23)
                           else - (of_int m * 2 powi (k - 23)))"
  using round_to_eval [of "- 126" k 127 x 24 m] assms by (simp add: to_float_def)

lemma to_double_eval:
  assumes "- 1022 \<le> k" and "k \<le> 1023" and "k = - 1022 \<or> 2 powi k \<le> \<bar>x\<bar>"
    and "\<bar>x\<bar> < 2 powi (k + 1)"
    and "rne (\<bar>x\<bar> / 2 powi (k - 52)) = m"
    and "of_int m * 2 powi (k - 52) < (2::real) powi 1024"
  shows "to_double x = Fin (if 0 \<le> x then of_int m * 2 powi (k - 52)
                            else - (of_int m * 2 powi (k - 52)))"
  using round_to_eval [of "- 1022" k 1023 x 53 m] assms by (simp add: to_double_def)

lemma to_float_unit:
  assumes "0 \<le> x" and "x \<le> 1"
  shows "\<exists>r. to_float x = Fin r \<and> 0 \<le> r \<and> r \<le> 1"
proof -
  have "fle (Fin 0) (to_float x)" using to_float_mono [OF assms(1)] by (simp add: to_float_0)
  moreover have "fle (to_float x) (Fin 1)" using to_float_mono [OF assms(2)] by (simp add: to_float_1)
  ultimately show ?thesis by (cases "to_float x") simp_all
qed

lemma to_double_unit:
  assumes "0 \<le> x" and "x \<le> 1"
  shows "\<exists>r. to_double x = Fin r \<and> 0 \<le> r \<and> r \<le> 1"
proof -
  have "fle (Fin 0) (to_double x)" using to_double_mono [OF assms(1)] by (simp add: to_double_0)
  moreover have "fle (to_double x) (Fin 1)" using to_double_mono [OF assms(2)] by (simp add: to_double_1)
  ultimately show ?thesis by (cases "to_double x") simp_all
qed

subsection \<open>The tolerance\<close>

lemma double_tolerance: "to_double (1 / 10000) = Fin (7378697629483821 / 2 ^ 66)"
  using to_double_eval [of "- 14" "1 / 10000" 7378697629483821]
  by (simp add: rne_def Let_def)

lemma tolerance_value: "CRITICALITY_ROUND_OFF_TOLERANCE = Fin (13743895 / 2 ^ 37)"
  using to_float_eval [of "- 14" "7378697629483821 / 2 ^ 66" 13743895]
  by (simp add: CRITICALITY_ROUND_OFF_TOLERANCE_def double_tolerance rne_def Let_def)

lemma lower_bound_value:
  "dsub (Fin 0) CRITICALITY_ROUND_OFF_TOLERANCE = Fin (- (13743895 / 2 ^ 37))"
  using to_double_exact [of "- 13743895" "- 37"]
  by (simp add: dsub_def tolerance_value)

lemma upper_bound_value:
  "dadd (Fin 1) CRITICALITY_ROUND_OFF_TOLERANCE = Fin (1 + 13743895 / 2 ^ 37)"
  using to_double_exact [of "137452697367" "- 37"]
  by (simp add: dadd_def tolerance_value)

subsection \<open>Order and NaN through the operations\<close>

lemma fle_PInf_right: "fle x PInf \<longleftrightarrow> \<not> isnan x"
  by (cases x) simp_all

lemma fle_MInf_left: "fle MInf x \<longleftrightarrow> \<not> isnan x"
  by (cases x) simp_all

lemma fneg_mono: "fle a b \<Longrightarrow> fle (fneg b) (fneg a)"
  by (cases a; cases b) simp_all

lemma isnan_fneg: "isnan (fneg a) = isnan a"
  by (cases a) simp_all

lemma add_rounded_not_nan: "\<not> isnan (add_rounded rnd a b) \<Longrightarrow> \<not> isnan a \<and> \<not> isnan b"
  by (cases a; cases b) simp_all

lemma add_rounded_mono_left:
  assumes "\<And>x y. x \<le> y \<Longrightarrow> fle (rnd x) (rnd y)"
    and "fle a b" and "\<not> isnan (add_rounded rnd a c)" and "\<not> isnan (add_rounded rnd b c)"
  shows "fle (add_rounded rnd a c) (add_rounded rnd b c)"
proof (cases c)
  case (Fin z)
  show ?thesis
  proof (cases a)
    case a: (Fin x)
    show ?thesis
    proof (cases b)
      case b: (Fin y)
      have "x + z \<le> y + z" using assms(2) a b by simp
      then show ?thesis using assms(1) Fin a b by simp
    qed (use assms Fin a in \<open>simp_all add: fle_PInf_right\<close>)
  qed (use assms Fin in \<open>cases b; simp_all add: fle_MInf_left\<close>)+
qed (use assms in \<open>cases a; cases b; simp_all\<close>)+

lemma add_rounded_mono_right:
  assumes "\<And>x y. x \<le> y \<Longrightarrow> fle (rnd x) (rnd y)"
    and "fle a b" and "\<not> isnan (add_rounded rnd c a)" and "\<not> isnan (add_rounded rnd c b)"
  shows "fle (add_rounded rnd c a) (add_rounded rnd c b)"
proof (cases c)
  case (Fin z)
  show ?thesis
  proof (cases a)
    case a: (Fin x)
    show ?thesis
    proof (cases b)
      case b: (Fin y)
      have "z + x \<le> z + y" using assms(2) a b by simp
      then show ?thesis using assms(1) Fin a b by simp
    qed (use assms Fin a in \<open>simp_all add: fle_PInf_right\<close>)
  qed (use assms Fin in \<open>cases b; simp_all add: fle_MInf_left\<close>)+
qed (use assms in \<open>cases a; cases b; simp_all\<close>)+

lemma fdiv_not_nan: "\<not> isnan (fdiv a m) \<Longrightarrow> \<not> isnan a"
  by (cases a) simp_all

lemma fdiv_mono_left:
  assumes "fless (Fin 0) m" and "fle a b" and "\<not> isnan (fdiv a m)" and "\<not> isnan (fdiv b m)"
  shows "fle (fdiv a m) (fdiv b m)"
proof (cases m)
  case (Fin d)
  then have d: "0 < d" using assms(1) by simp
  show ?thesis
  proof (cases a)
    case a: (Fin x)
    show ?thesis
    proof (cases b)
      case b: (Fin y)
      have "x / d \<le> y / d" using assms(2) a b d by (simp add: divide_right_mono)
      then show ?thesis using Fin a b d by (simp add: to_float_mono)
    qed (use assms Fin a d in \<open>simp_all add: to_float_not_nan fle_PInf_right\<close>)
  qed (use assms Fin d in \<open>cases b; simp_all add: to_float_not_nan fle_MInf_left\<close>)+
qed (use assms in \<open>cases a; cases b; simp_all\<close>)+

lemma float_of_double_mono: "fle a b \<Longrightarrow> fle (float_of_double a) (float_of_double b)"
  by (cases a; cases b) (simp_all add: to_float_mono fle_PInf_right fle_MInf_left to_float_not_nan)

lemma isnan_float_of_double: "isnan (float_of_double a) = isnan a"
  by (cases a) (simp_all add: to_float_not_nan)

lemma clamp_mono:
  "fle a b \<Longrightarrow> fle (fmin (Fin 1) (fmax (Fin 0) a)) (fmin (Fin 1) (fmax (Fin 0) b))"
  by (cases a; cases b) (auto simp: fmin_def fmax_def)

subsection \<open>The checks and the clamp\<close>

lemma check_and_clamp_Inr:
  assumes "check_and_clamp u = Inr c"
  shows "\<not> isnan u \<and> c = fmin (Fin 1) (fmax (Fin 0) u) \<and> (\<exists>x. c = Fin x \<and> 0 \<le> x \<and> x \<le> 1)"
proof (cases u)
  case (Fin x)
  then have "c = fmin (Fin 1) (fmax (Fin 0) (Fin x))"
    using assms by (simp add: check_and_clamp_def split: if_splits)
  then show ?thesis using Fin by (auto simp: fmin_def fmax_def)
qed (use assms in \<open>simp_all add: check_and_clamp_def lower_bound_value upper_bound_value\<close>)

lemma check_and_clamp_unit:
  "0 \<le> x \<Longrightarrow> x \<le> 1 \<Longrightarrow> check_and_clamp (Fin x) = Inr (Fin x)"
  by (simp add: check_and_clamp_def lower_bound_value upper_bound_value fmin_def fmax_def)

lemma unclamped_criticality_not_nan:
  "\<not> isnan (unclamped_criticality slack max_req) \<Longrightarrow> \<not> isnan slack \<and> \<not> isnan (fdiv slack max_req)"
proof -
  assume "\<not> isnan (unclamped_criticality slack max_req)"
  then have "\<not> isnan (add_rounded to_double (Fin 1) (fneg (fdiv slack max_req)))"
    by (simp add: unclamped_criticality_def dsub_def isnan_float_of_double)
  then have "\<not> isnan (fdiv slack max_req)"
    using add_rounded_not_nan isnan_fneg by blast
  then show ?thesis using fdiv_not_nan by blast
qed

lemma unclamped_criticality_antitone:
  assumes "fless (Fin 0) max_req" and "fle slack1 slack2"
    and "\<not> isnan (unclamped_criticality slack1 max_req)"
    and "\<not> isnan (unclamped_criticality slack2 max_req)"
  shows "fle (unclamped_criticality slack2 max_req) (unclamped_criticality slack1 max_req)"
proof -
  let ?q1 = "fdiv slack1 max_req" and ?q2 = "fdiv slack2 max_req"
  have n1: "\<not> isnan ?q1" and n2: "\<not> isnan ?q2"
    using assms(3,4) unclamped_criticality_not_nan by blast+
  have "fle ?q1 ?q2" using assms(1,2) n1 n2 by (rule fdiv_mono_left)
  then have "fle (fneg ?q2) (fneg ?q1)" by (rule fneg_mono)
  moreover have "\<not> isnan (add_rounded to_double (Fin 1) (fneg ?q2))"
    "\<not> isnan (add_rounded to_double (Fin 1) (fneg ?q1))"
    using assms(3,4) by (simp_all add: unclamped_criticality_def dsub_def isnan_float_of_double)
  ultimately have "fle (add_rounded to_double (Fin 1) (fneg ?q2))
                       (add_rounded to_double (Fin 1) (fneg ?q1))"
    using to_double_mono by (intro add_rounded_mono_right)
  then show ?thesis
    by (simp add: unclamped_criticality_def dsub_def float_of_double_mono)
qed

lemma unclamped_criticality_unit:
  assumes "0 \<le> s" and "s \<le> m" and "0 < m"
  shows "\<exists>q d c. to_float (s / m) = Fin q \<and> to_double (1 - q) = Fin d \<and> to_float d = Fin c
           \<and> unclamped_criticality (Fin s) (Fin m) = Fin c \<and> 0 \<le> c \<and> c \<le> 1"
proof -
  have "0 \<le> s / m" "s / m \<le> 1" using assms by simp_all
  then obtain q where q: "to_float (s / m) = Fin q" "0 \<le> q" "q \<le> 1"
    using to_float_unit by blast
  have "0 \<le> 1 - q" "1 - q \<le> 1" using q(2,3) by simp_all
  then obtain d where d: "to_double (1 - q) = Fin d" "0 \<le> d" "d \<le> 1"
    using to_double_unit by blast
  obtain c where c: "to_float d = Fin c" "0 \<le> c" "c \<le> 1"
    using to_float_unit [OF d(2,3)] by blast
  have "unclamped_criticality (Fin s) (Fin m) = Fin c"
    using assms(3) q(1) d(1) c(1) by (simp add: unclamped_criticality_def dsub_def)
  then show ?thesis using q(1) d(1) c by blast
qed

section \<open>The nested loops visit the tags in order\<close>

lemma fold_nodes_tags:
  "fold (\<lambda>node acc. fold f (slacks node) acc) nodes acc = fold f (visited_tags nodes slacks) acc"
  by (induction nodes arbitrary: acc) (simp_all add: visited_tags_def)

section \<open>Total negative slack\<close>

lemma tns_tag_le0: "fle tns (Fin 0) \<Longrightarrow> fle (tns_tag tag tns) (Fin 0)"
proof (cases "fless (time_value tag) (Fin 0)")
  case False
  assume "fle tns (Fin 0)"
  then show ?thesis using False by (simp add: tns_tag_def)
next
  case True
  assume le: "fle tns (Fin 0)"
  have "fle (fadd tns (time_value tag)) (Fin 0)"
  proof (cases tns)
    case a: (Fin x)
    show ?thesis
    proof (cases "time_value tag")
      case (Fin y)
      then have "x + y \<le> 0" using True le a by simp
      then have "fle (to_float (x + y)) (to_float 0)" by (rule to_float_mono)
      then show ?thesis using a Fin by (simp add: fadd_def to_float_0)
    qed (use True a in \<open>simp_all add: fadd_def\<close>)
  qed (use True le in \<open>cases "time_value tag"; simp_all add: fadd_def\<close>)+
  then show ?thesis using True by (simp add: tns_tag_def)
qed

lemma fold_tns_le0: "fle tns (Fin 0) \<Longrightarrow> fle (fold tns_tag tags tns) (Fin 0)"
  by (induction tags arbitrary: tns) (simp_all add: tns_tag_le0)

lemma fold_tns_filter:
  "fold tns_tag tags tns =
     fold (\<lambda>x acc. fadd acc x)
       (map time_value (filter (\<lambda>tag. fless (time_value tag) (Fin 0)) tags)) tns"
  by (induction tags arbitrary: tns) (simp_all add: tns_tag_def)

lemma fold_fadd_exact:
  "exact_sums xs a \<Longrightarrow> fold (\<lambda>x acc. fadd acc x) (map Fin xs) (Fin a) = Fin (a + sum_list xs)"
  by (induction xs arbitrary: a) (simp_all add: fadd_def add.assoc)

lemma filter_neg_Fin:
  "map time_value tags = map Fin xs \<Longrightarrow>
   map time_value (filter (\<lambda>tag. fless (time_value tag) (Fin 0)) tags)
     = map Fin (filter (\<lambda>x. x < 0) xs)"
proof (induction tags arbitrary: xs)
  case Nil
  then show ?case by simp
next
  case (Cons t tags)
  then obtain y ys where xs: "xs = y # ys" "time_value t = Fin y" "map time_value tags = map Fin ys"
    by (cases xs) auto
  then show ?case using Cons.IH [of ys] by simp
qed

lemma fold_tns_insert:
  "\<not> fless (time_value tag) (Fin 0) \<Longrightarrow>
   fold tns_tag (before @ tag # after) tns = fold tns_tag (before @ after) tns"
  by (simp add: tns_tag_def)

lemma tns_nodes_insert:
  assumes "\<not> fless (time_value tag) (Fin 0)" and "slacks node = before @ after"
  shows "fold (\<lambda>n tns. fold tns_tag ((slacks(node := before @ tag # after)) n) tns) nodes tns
         = fold (\<lambda>n tns. fold tns_tag (slacks n) tns) nodes tns"
proof -
  have "(\<lambda>n. fold tns_tag ((slacks(node := before @ tag # after)) n))
        = (\<lambda>n. fold tns_tag (slacks n))"
  proof
    fix n
    show "fold tns_tag ((slacks(node := before @ tag # after)) n) = fold tns_tag (slacks n)"
    proof (cases "n = node")
      case True
      have "fold tns_tag (before @ tag # after) = fold tns_tag (before @ after)"
        using fold_tns_insert [OF assms(1)] by blast
      then show ?thesis using True assms(2) by simp
    next
      case False
      then show ?thesis by simp
    qed
  qed
  then show ?thesis by metis
qed

lemma float_minus_2_24: "to_float (- 16777216) = Fin (- 16777216)"
  using to_float_exact [of "- 1" 24] by simp

lemma float_minus_2_24_minus_2: "to_float (- 16777218) = Fin (- 16777218)"
  using to_float_exact [of "- 8388609" 1] by simp

lemma float_minus_2_24_minus_1: "to_float (- 16777217) = Fin (- 16777216)"
proof -
  have r: "rne (\<bar>- 16777217\<bar> / 2 powi (24 - 23)) = 8388608"
    by (simp add: rne_def)
  show ?thesis
    using to_float_eval [of 24 "- 16777217" 8388608] r by simp
qed

lemma float_minus_small: "to_float (- 2) = Fin (- 2)" "to_float (- 7) = Fin (- 7)"
  using to_float_int [of "- 2"] to_float_int [of "- 7"] by simp_all

text \<open>A sum beyond the range of the floats is an infinity: two slacks of \<open>- 2 ^ 127\<close>.\<close>

lemma float_overflow: "to_float (- (2 ^ 128)) = MInf"
proof -
  let ?b = "binade 254 (- 126) (2 ^ 128)"
  have le: "?b \<le> 128" using binade_bounds [of "- 126" 254 "2 ^ 128"] by simp
  have "\<not> ?b < 128"
  proof
    assume lt: "?b < 128"
    then have "(2 ^ 128 :: real) < 2 powi (?b + 1)"
      using binade_upper [of 254 "- 126" "2 ^ 128"] by simp
    also have "\<dots> \<le> 2 powi 128" using lt by (intro power_int_increasing) simp_all
    finally show False by simp
  qed
  then have "?b = 128" using le by simp
  then show ?thesis
    by (simp add: to_float_def round_to_def round_mag_def Let_def rne_def power_int_diff)
qed

lemma tns_overflow_example:
  "find_setup_total_negative_slack [0]
     (\<lambda>node. [slack_tag 0 0 (- (2 ^ 127)), slack_tag 0 0 (- (2 ^ 127))]) = MInf"
proof -
  have a: "to_float (- (2 ^ 127)) = Fin (- (2 ^ 127))"
    using to_float_exact [of "- 1" 127] by simp
  have b: "(- (2 * 2 ^ 127) :: real) = - (2 ^ 128)" by simp
  show ?thesis
    by (simp add: find_setup_total_negative_slack_def slack_tag_def tns_tag_def fadd_def a
        del: power_numeral) (simp only: b float_overflow)
qed

text \<open>
  C5, as amended: the total negative slack is the sum of exactly the tag values below zero,
  added as floats one after the other in the order in which the loops visit the tags of the
  output nodes, every addition rounded to the nearest float. It is the sum of these values
  as real numbers when no addition on the way rounds. The result is at most zero. A further
  tag whose slack is not negative, put anywhere among the tags of a node, leaves the result
  as it was. The hold function computes the same as the setup function.
\<close>

theorem tns_sums_negative_slacks:
  "find_setup_total_negative_slack logical_outputs slacks
     = float_sum (map time_value
         (filter (\<lambda>tag. fless (time_value tag) (Fin 0)) (visited_tags logical_outputs slacks)))
   \<and> (map time_value (visited_tags logical_outputs slacks) = map Fin xs
        \<and> exact_sums (filter (\<lambda>x. x < 0) xs) 0 \<longrightarrow>
        find_setup_total_negative_slack logical_outputs slacks
          = Fin (sum_list (filter (\<lambda>x. x < 0) xs)))
   \<and> fle (find_setup_total_negative_slack logical_outputs slacks) (Fin 0)
   \<and> (\<not> fless (time_value tag) (Fin 0) \<and> slacks node = before @ after \<longrightarrow>
        find_setup_total_negative_slack logical_outputs (slacks(node := before @ tag # after))
          = find_setup_total_negative_slack logical_outputs slacks)
   \<and> find_hold_total_negative_slack logical_outputs slacks
       = find_setup_total_negative_slack logical_outputs slacks"
proof -
  let ?tags = "visited_tags logical_outputs slacks"
  let ?neg = "filter (\<lambda>tag. fless (time_value tag) (Fin 0)) ?tags"
  have eq: "find_setup_total_negative_slack logical_outputs slacks = fold tns_tag ?tags (Fin 0)"
    by (simp add: find_setup_total_negative_slack_def fold_nodes_tags)
  have c1: "find_setup_total_negative_slack logical_outputs slacks
              = float_sum (map time_value ?neg)"
    by (simp add: eq float_sum_def fold_tns_filter)
  have c2: "find_setup_total_negative_slack logical_outputs slacks
              = Fin (sum_list (filter (\<lambda>x. x < 0) xs))"
    if "map time_value ?tags = map Fin xs" "exact_sums (filter (\<lambda>x. x < 0) xs) 0"
    using filter_neg_Fin [OF that(1)] fold_fadd_exact [OF that(2)]
    by (simp add: c1 float_sum_def)
  have c3: "fle (find_setup_total_negative_slack logical_outputs slacks) (Fin 0)"
    unfolding eq by (rule fold_tns_le0) simp
  have c4: "find_setup_total_negative_slack logical_outputs (slacks(node := before @ tag # after))
          = find_setup_total_negative_slack logical_outputs slacks"
    if "\<not> fless (time_value tag) (Fin 0)" "slacks node = before @ after"
    unfolding find_setup_total_negative_slack_def using that by (rule tns_nodes_insert)
  have c5: "find_hold_total_negative_slack logical_outputs slacks
       = find_setup_total_negative_slack logical_outputs slacks"
    by (simp add: find_hold_total_negative_slack_def find_setup_total_negative_slack_def)
  show ?thesis using c1 c2 c3 c4 c5 by blast
qed

theorem tns_sums_negative_slacks_witness:
  "find_setup_total_negative_slack [0, 1] example_slacks = Fin (- 7)
   \<and> find_setup_total_negative_slack [0, 1]
       (example_slacks(1 := [slack_tag 1 1 (- 5)] @ slack_tag 2 2 4 # []))
     = find_setup_total_negative_slack [0, 1] example_slacks"
  using tns_sums_negative_slacks [of "[0, 1]" example_slacks "[- 2, 3, - 5]" "slack_tag 2 2 4"
      1 "[slack_tag 1 1 (- 5)]" "[]"]
  by (simp add: visited_tags_def example_slacks_def slack_tag_def float_sum_def fadd_def
      float_minus_small)

text \<open>
  The total negative slack is not in general the sum of the negative tag values: for the
  slacks -2^24, -1 and -1 of one output node the sum is -16777218, which is a float, and
  the function returns -16777216, since each of the two additions of -1 is rounded back.
\<close>

theorem tns_rounding_counterexample:
  "find_setup_total_negative_slack [0] example_rounding_slacks = Fin (- 16777216)
   \<and> map time_value (visited_tags [0] example_rounding_slacks)
       = [Fin (- 16777216), Fin (- 1), Fin (- 1)]
   \<and> to_float (sum_list [- 16777216, - 1, - 1]) = Fin (- 16777218)
   \<and> sum_list [- 16777216, - 1, - 1] \<noteq> (- 16777216 :: real)"
  by (simp add: find_setup_total_negative_slack_def example_rounding_slacks_def slack_tag_def
      visited_tags_def tns_tag_def fadd_def float_minus_2_24 float_minus_2_24_minus_1
      float_minus_2_24_minus_2)

section \<open>Worst negative slack\<close>

lemma wns_tag_le: "fle wns (Fin 0) \<Longrightarrow> fle (wns_tag tag wns) wns"
  by (cases wns; cases "time_value tag") (auto simp: wns_tag_def fmin_def Let_def)

lemma wns_tag_le_tag:
  "fle wns (Fin 0) \<Longrightarrow> fless (time_value tag) (Fin 0) \<Longrightarrow> fle (wns_tag tag wns) (time_value tag)"
  by (cases wns; cases "time_value tag") (auto simp: wns_tag_def fmin_def Let_def)

lemma wns_tag_nonneg: "\<not> fless (time_value tag) (Fin 0) \<Longrightarrow> wns_tag tag wns = wns"
  by (simp add: wns_tag_def)

lemma fold_wns_le: "fle wns (Fin 0) \<Longrightarrow> fle (fold wns_tag tags wns) wns"
proof (induction tags arbitrary: wns)
  case Nil
  then show ?case by (simp add: fle_refl fle_not_nan)
next
  case (Cons tag tags)
  have a: "fle (wns_tag tag wns) wns" using Cons.prems by (rule wns_tag_le)
  then have "fle (wns_tag tag wns) (Fin 0)" using Cons.prems by (rule fle_trans)
  then have "fle (fold wns_tag tags (wns_tag tag wns)) (wns_tag tag wns)" by (rule Cons.IH)
  then show ?case using a by (auto intro: fle_trans)
qed

lemma fold_wns_le_tag:
  "fle wns (Fin 0) \<Longrightarrow> tag \<in> set tags \<Longrightarrow> fless (time_value tag) (Fin 0)
     \<Longrightarrow> fle (fold wns_tag tags wns) (time_value tag)"
proof (induction tags arbitrary: wns)
  case Nil
  then show ?case by simp
next
  case (Cons t tags)
  have le0: "fle (wns_tag t wns) (Fin 0)"
    using wns_tag_le [OF Cons.prems(1)] Cons.prems(1) by (rule fle_trans)
  show ?case
  proof (cases "tag = t")
    case True
    have "fle (fold wns_tag tags (wns_tag t wns)) (wns_tag t wns)"
      using le0 by (rule fold_wns_le)
    moreover have "fle (wns_tag t wns) (time_value tag)"
      using Cons.prems True by (simp add: wns_tag_le_tag)
    ultimately show ?thesis by (auto intro: fle_trans)
  next
    case False
    then have "tag \<in> set tags" using Cons.prems by simp
    then show ?thesis using Cons.IH [OF le0] Cons.prems(3) by simp
  qed
qed

lemma fold_wns_none:
  "\<forall>tag \<in> set tags. \<not> fless (time_value tag) (Fin 0) \<Longrightarrow> fold wns_tag tags wns = wns"
  by (induction tags arbitrary: wns) (simp_all add: wns_tag_nonneg)

text \<open>
  C6: the worst negative slack is at most zero and at most every tag value below zero among
  the tags of the output nodes; when no tag value is below zero it is exactly zero, a
  number and not NaN. The hold function computes the same as the setup function.
\<close>

theorem wns_bounds_negative_slacks:
  "fle (find_setup_worst_negative_slack logical_outputs slacks) (Fin 0)
   \<and> (\<forall>tag \<in> set (visited_tags logical_outputs slacks).
        fless (time_value tag) (Fin 0) \<longrightarrow>
        fle (find_setup_worst_negative_slack logical_outputs slacks) (time_value tag))
   \<and> ((\<forall>tag \<in> set (visited_tags logical_outputs slacks). \<not> fless (time_value tag) (Fin 0)) \<longrightarrow>
        find_setup_worst_negative_slack logical_outputs slacks = Fin 0)
   \<and> find_hold_worst_negative_slack logical_outputs slacks
       = find_setup_worst_negative_slack logical_outputs slacks"
proof -
  let ?tags = "visited_tags logical_outputs slacks"
  have eq: "find_setup_worst_negative_slack logical_outputs slacks = fold wns_tag ?tags (Fin 0)"
    by (simp add: find_setup_worst_negative_slack_def fold_nodes_tags)
  have z: "fle (Fin 0) (Fin 0)" by simp
  have "fle (fold wns_tag ?tags (Fin 0)) (Fin 0)" using z by (rule fold_wns_le)
  moreover have "\<forall>tag \<in> set ?tags. fless (time_value tag) (Fin 0) \<longrightarrow>
      fle (fold wns_tag ?tags (Fin 0)) (time_value tag)"
    using fold_wns_le_tag [OF z] by blast
  moreover have "(\<forall>tag \<in> set ?tags. \<not> fless (time_value tag) (Fin 0)) \<longrightarrow>
      fold wns_tag ?tags (Fin 0) = Fin 0"
    using fold_wns_none by blast
  moreover have "find_hold_worst_negative_slack logical_outputs slacks
       = find_setup_worst_negative_slack logical_outputs slacks"
    by (simp add: find_hold_worst_negative_slack_def find_setup_worst_negative_slack_def)
  ultimately show ?thesis unfolding eq by blast
qed

theorem wns_bounds_negative_slacks_witness:
  "fle (find_setup_worst_negative_slack [0, 1] example_slacks) (Fin (- 2))
   \<and> fle (find_setup_worst_negative_slack [0, 1] example_slacks) (Fin (- 5))
   \<and> find_setup_worst_negative_slack [0] (\<lambda>node. [slack_tag 0 1 3]) = Fin 0"
  using wns_bounds_negative_slacks [of "[0, 1]" example_slacks]
    wns_bounds_negative_slacks [of "[0]" "\<lambda>node. [slack_tag 0 1 3]"]
  by (simp add: visited_tags_def example_slacks_def slack_tag_def)

section \<open>The path of least slack\<close>

lemma least_slack_snoc:
  "find_least_slack_critical_path_delay (cpds @ [p]) =
     (if fless (path_slack p) (path_slack (find_least_slack_critical_path_delay cpds))
         \<or> isnan (path_slack (find_least_slack_critical_path_delay cpds))
      then p else find_least_slack_critical_path_delay cpds)"
  by (simp add: find_least_slack_critical_path_delay_def)

lemma least_slack_first_min:
  "cpds \<noteq> [] \<Longrightarrow> \<forall>p \<in> set cpds. \<not> isnan (path_slack p) \<Longrightarrow>
   \<exists>i < length cpds. find_least_slack_critical_path_delay cpds = cpds ! i
     \<and> (\<forall>j < length cpds. fle (path_slack (cpds ! i)) (path_slack (cpds ! j)))
     \<and> (\<forall>j < i. fless (path_slack (cpds ! i)) (path_slack (cpds ! j)))"
proof (induction cpds rule: rev_induct)
  case Nil
  then show ?case by simp
next
  case (snoc p cpds)
  let ?f = find_least_slack_critical_path_delay
  have pn: "\<not> isnan (path_slack p)" using snoc.prems by simp
  show ?case
  proof (cases "cpds = []")
    case True
    have "?f [p] = p"
      by (simp add: find_least_slack_critical_path_delay_def default_TimingPathInfo_def)
    then show ?thesis using True pn by (simp add: fle_refl)
  next
    case False
    then obtain i where i: "i < length cpds" "?f cpds = cpds ! i"
      "\<forall>j < length cpds. fle (path_slack (cpds ! i)) (path_slack (cpds ! j))"
      "\<forall>j < i. fless (path_slack (cpds ! i)) (path_slack (cpds ! j))"
      using snoc by auto
    have inn: "\<not> isnan (path_slack (cpds ! i))" using snoc.prems i(1) by simp
    show ?thesis
    proof (cases "fless (path_slack p) (path_slack (cpds ! i))")
      case True
      then have r: "?f (cpds @ [p]) = (cpds @ [p]) ! length cpds"
        using i(2) by (simp add: least_slack_snoc)
      have a: "\<forall>j < length cpds. fless (path_slack p) (path_slack (cpds ! j))"
        using True i(3) by (blast intro: fless_fle_trans)
      have "\<forall>j < length (cpds @ [p]). fle (path_slack ((cpds @ [p]) ! length cpds))
              (path_slack ((cpds @ [p]) ! j))"
      proof (intro allI impI)
        fix j assume "j < length (cpds @ [p])"
        then consider "j < length cpds" | "j = length cpds" by force
        then show "fle (path_slack ((cpds @ [p]) ! length cpds)) (path_slack ((cpds @ [p]) ! j))"
        proof cases
          case 1
          then show ?thesis using a by (simp add: nth_append fless_imp_fle)
        next
          case 2
          then show ?thesis using pn by (simp add: fle_refl)
        qed
      qed
      moreover have "\<forall>j < length cpds. fless (path_slack ((cpds @ [p]) ! length cpds))
              (path_slack ((cpds @ [p]) ! j))"
        using a by (simp add: nth_append)
      ultimately show ?thesis using r by (intro exI [of _ "length cpds"]) simp
    next
      case False
      then have r: "?f (cpds @ [p]) = (cpds @ [p]) ! i"
        using i(1,2) inn by (simp add: least_slack_snoc nth_append)
      have le: "fle (path_slack (cpds ! i)) (path_slack p)"
        using False pn inn by (simp add: not_fless_fle)
      have "\<forall>j < length (cpds @ [p]). fle (path_slack ((cpds @ [p]) ! i))
              (path_slack ((cpds @ [p]) ! j))"
      proof (intro allI impI)
        fix j assume "j < length (cpds @ [p])"
        then consider "j < length cpds" | "j = length cpds" by force
        then show "fle (path_slack ((cpds @ [p]) ! i)) (path_slack ((cpds @ [p]) ! j))"
        proof cases
          case 1
          then show ?thesis using i(1,3) by (simp add: nth_append)
        next
          case 2
          then show ?thesis using i(1) le by (simp add: nth_append)
        qed
      qed
      moreover have "\<forall>j < i. fless (path_slack ((cpds @ [p]) ! i)) (path_slack ((cpds @ [p]) ! j))"
        using i(1,4) by (simp add: nth_append)
      ultimately show ?thesis using r i(1) by (intro exI [of _ i]) simp
    qed
  qed
qed

text \<open>
  C7: the search starts from the undefined path and replaces the current best only when the
  slack of the next path is strictly smaller or the slack of the current best is NaN. So, for
  paths whose slacks are numbers, the result is the first path of least slack: no path has a
  smaller slack and every earlier path has a strictly greater one. Of three domain pairs with
  slacks 0.5, -0.2 and -0.2 the second is returned.
\<close>

theorem least_slack_first_wins:
  "find_least_slack_critical_path_delay [] = default_TimingPathInfo
   \<and> find_least_slack_critical_path_delay (cpds @ [p]) =
       (if fless (path_slack p) (path_slack (find_least_slack_critical_path_delay cpds))
           \<or> isnan (path_slack (find_least_slack_critical_path_delay cpds))
        then p else find_least_slack_critical_path_delay cpds)
   \<and> (cpds \<noteq> [] \<and> (\<forall>p \<in> set cpds. \<not> isnan (path_slack p)) \<longrightarrow>
        (\<exists>i < length cpds. find_least_slack_critical_path_delay cpds = cpds ! i
           \<and> (\<forall>j < length cpds. fle (path_slack (cpds ! i)) (path_slack (cpds ! j)))
           \<and> (\<forall>j < i. fless (path_slack (cpds ! i)) (path_slack (cpds ! j)))))
   \<and> find_least_slack_critical_path_delay example_cpds = example_path 0 1 4 (- (2 / 10))"
proof -
  have "find_least_slack_critical_path_delay [] = default_TimingPathInfo"
    by (simp add: find_least_slack_critical_path_delay_def)
  moreover have "find_least_slack_critical_path_delay example_cpds = example_path 0 1 4 (- (2 / 10))"
    by (simp add: find_least_slack_critical_path_delay_def example_cpds_def example_path_def
        default_TimingPathInfo_def)
  ultimately show ?thesis using least_slack_snoc least_slack_first_min by blast
qed

theorem least_slack_first_wins_witness:
  "find_least_slack_critical_path_delay example_cpds = example_cpds ! 1"
proof -
  have h: "example_cpds \<noteq> [] \<and> (\<forall>p \<in> set example_cpds. \<not> isnan (path_slack p))"
    by (simp add: example_cpds_def example_path_def)
  have len: "length example_cpds = 3" by (simp add: example_cpds_def)
  have s0: "path_slack (example_cpds ! 0) = Fin (1 / 2)"
    and s1: "path_slack (example_cpds ! 1) = Fin (- (2 / 10))"
    and s2: "path_slack (example_cpds ! 2) = Fin (- (2 / 10))"
    by (simp_all add: example_cpds_def example_path_def)
  obtain i where i: "i < length example_cpds"
    "find_least_slack_critical_path_delay example_cpds = example_cpds ! i"
    "\<forall>j < length example_cpds. fle (path_slack (example_cpds ! i)) (path_slack (example_cpds ! j))"
    "\<forall>j < i. fless (path_slack (example_cpds ! i)) (path_slack (example_cpds ! j))"
    using h least_slack_first_wins [of example_cpds] by blast
  consider "i = 0" | "i = 1" | "i = 2" using i(1) len by linarith
  then show ?thesis
  proof cases
    case 1
    have "fle (path_slack (example_cpds ! i)) (path_slack (example_cpds ! 1))"
      using i(3) len by simp
    then show ?thesis using 1 s0 s1 by simp
  next
    case 2
    then show ?thesis using i(2) by simp
  next
    case 3
    have "fless (path_slack (example_cpds ! i)) (path_slack (example_cpds ! 1))"
      using i(4) 3 by simp
    then show ?thesis using 3 s1 s2 by simp
  qed
qed

section \<open>The worst hold slack of a domain pair\<close>

lemma fold_worst_filter:
  "fold (worst_slack_tag launch capture) tags w =
     fold (\<lambda>tag w. fmin w (time_value tag))
       (filter (\<lambda>tag. launch_clock_domain tag = launch \<and> capture_clock_domain tag = capture) tags) w"
  by (induction tags arbitrary: w) (simp_all add: worst_slack_tag_def)

lemma find_hold_worst_slack_matching:
  "find_hold_worst_slack logical_outputs slacks launch capture =
     fold (\<lambda>tag w. fmin w (time_value tag)) (matching_tags logical_outputs slacks launch capture) PInf"
proof -
  have "find_hold_worst_slack logical_outputs slacks launch capture
          = fold (worst_slack_tag launch capture) (visited_tags logical_outputs slacks) PInf"
    unfolding find_hold_worst_slack_def by (rule fold_nodes_tags)
  then show ?thesis by (simp only: fold_worst_filter matching_tags_def)
qed

lemma fmin_cases: "fmin a b = a \<or> fmin a b = b"
  by (simp add: fmin_def)

lemma fmin_le_left: "\<not> isnan a \<Longrightarrow> fle (fmin a b) a"
  by (cases a; cases b) (auto simp: fmin_def)

lemma fmin_le_right: "\<not> isnan a \<Longrightarrow> \<not> isnan b \<Longrightarrow> fle (fmin a b) b"
  by (cases a; cases b) (auto simp: fmin_def)

lemma fmin_not_nan: "\<not> isnan a \<Longrightarrow> \<not> isnan (fmin a b)"
  by (cases a; cases b) (auto simp: fmin_def)

lemma fold_fmin_le_acc:
  "\<not> isnan w \<Longrightarrow> fle (fold (\<lambda>tag w. fmin w (time_value tag)) tags w) w"
proof (induction tags arbitrary: w)
  case Nil
  then show ?case by (simp add: fle_refl)
next
  case (Cons t tags)
  have "fle (fold (\<lambda>tag w. fmin w (time_value tag)) tags (fmin w (time_value t)))
          (fmin w (time_value t))"
    using Cons.prems by (intro Cons.IH fmin_not_nan)
  moreover have "fle (fmin w (time_value t)) w" using Cons.prems by (rule fmin_le_left)
  ultimately show ?case by (auto intro: fle_trans)
qed

lemma fold_fmin_le_tag:
  "\<not> isnan w \<Longrightarrow> tag \<in> set tags \<Longrightarrow> \<not> isnan (time_value tag)
     \<Longrightarrow> fle (fold (\<lambda>tag w. fmin w (time_value tag)) tags w) (time_value tag)"
proof (induction tags arbitrary: w)
  case Nil
  then show ?case by simp
next
  case (Cons t tags)
  have nn: "\<not> isnan (fmin w (time_value t))" using Cons.prems(1) by (rule fmin_not_nan)
  show ?case
  proof (cases "tag = t")
    case True
    have "fle (fold (\<lambda>tag w. fmin w (time_value tag)) tags (fmin w (time_value t)))
            (fmin w (time_value t))"
      using nn by (rule fold_fmin_le_acc)
    moreover have "fle (fmin w (time_value t)) (time_value tag)"
      using Cons.prems True by (simp add: fmin_le_right)
    ultimately show ?thesis by (auto intro: fle_trans)
  next
    case False
    then show ?thesis using Cons.IH [OF nn] Cons.prems by simp
  qed
qed

lemma fold_fmin_mem:
  "fold (\<lambda>tag w. fmin w (time_value tag)) tags w \<in> insert w (time_value ` set tags)"
proof (induction tags arbitrary: w)
  case Nil
  then show ?case by simp
next
  case (Cons t tags)
  show ?case using Cons.IH [of "fmin w (time_value t)"] fmin_cases [of w "time_value t"]
    by auto
qed

lemma fle_PInf: "fle PInf a \<longleftrightarrow> a = PInf"
  by (cases a) simp_all

lemma fless_PInf: "fless a PInf \<longleftrightarrow> a = MInf \<or> (\<exists>x. a = Fin x)"
  by (cases a) simp_all

lemma find_hold_worst_slack_PInf:
  "find_hold_worst_slack logical_outputs slacks launch capture = PInf
   \<longleftrightarrow> \<not> (\<exists>tag \<in> set (matching_tags logical_outputs slacks launch capture).
             fless (time_value tag) PInf)"
proof -
  let ?m = "matching_tags logical_outputs slacks launch capture"
  let ?r = "fold (\<lambda>tag w. fmin w (time_value tag)) ?m PInf"
  have nn: "\<not> isnan PInf" by simp
  show ?thesis unfolding find_hold_worst_slack_matching
  proof
    assume r: "?r = PInf"
    show "\<not> (\<exists>tag \<in> set ?m. fless (time_value tag) PInf)"
    proof
      assume "\<exists>tag \<in> set ?m. fless (time_value tag) PInf"
      then obtain tag where t: "tag \<in> set ?m" "fless (time_value tag) PInf" by blast
      then have "\<not> isnan (time_value tag)" by (simp add: fless_not_nan)
      then have "fle ?r (time_value tag)" using nn t(1) by (intro fold_fmin_le_tag)
      then have "time_value tag = PInf" using r by (simp add: fle_PInf)
      then show False using t(2) by simp
    qed
  next
    assume a: "\<not> (\<exists>tag \<in> set ?m. fless (time_value tag) PInf)"
    have "?r \<in> insert PInf (time_value ` set ?m)" by (rule fold_fmin_mem)
    moreover have "\<not> isnan ?r" using fold_fmin_le_acc [OF nn] fle_not_nan by blast
    ultimately consider "?r = PInf" | tag where "tag \<in> set ?m" "?r = time_value tag" "\<not> isnan ?r"
      by auto
    then show "?r = PInf"
    proof cases
      case 1
      then show ?thesis .
    next
      case 2
      then have "\<not> fless ?r PInf" using a by auto
      then show ?thesis using 2(3) by (cases ?r) simp_all
    qed
  qed
qed

lemma sec_to_nanosec_PInf: "sec_to_nanosec a = PInf \<longleftrightarrow> a = PInf"
  by (cases a) (simp_all add: sec_to_nanosec_def)

lemma in_concat_map: "x \<in> set (concat (map f xs)) \<longleftrightarrow> (\<exists>y \<in> set xs. x \<in> set (f y))"
  by auto

lemma intra_lines:
  assumes "line \<in> set (intra_domain_lines clock_domains logical_outputs slacks)"
  shows "\<exists>launch capture. line = WorstHoldSlack launch capture
        (sec_to_nanosec (find_hold_worst_slack logical_outputs slacks launch capture))
     \<and> find_hold_worst_slack logical_outputs slacks launch capture \<noteq> PInf"
proof -
  let ?w = "\<lambda>l c. find_hold_worst_slack logical_outputs slacks l c"
  have "\<exists>d \<in> set clock_domains. line \<in> set (if ?w d d = PInf then []
       else [WorstHoldSlack d d (sec_to_nanosec (?w d d))])"
    using assms unfolding intra_domain_lines_def Let_def in_concat_map .
  then obtain d where "line \<in> set (if ?w d d = PInf then []
       else [WorstHoldSlack d d (sec_to_nanosec (?w d d))])" ..
  then have "line = WorstHoldSlack d d (sec_to_nanosec (?w d d)) \<and> ?w d d \<noteq> PInf"
    by (cases "?w d d = PInf") simp_all
  then show ?thesis by (intro exI [of _ d])
qed

lemma inter_lines:
  assumes "line \<in> set (inter_domain_lines clock_domains logical_outputs slacks)"
  shows "\<exists>launch capture. line = WorstHoldSlack launch capture
        (sec_to_nanosec (find_hold_worst_slack logical_outputs slacks launch capture))
     \<and> find_hold_worst_slack logical_outputs slacks launch capture \<noteq> PInf"
proof -
  let ?w = "\<lambda>l c. find_hold_worst_slack logical_outputs slacks l c"
  have "\<exists>l \<in> set clock_domains. \<exists>c \<in> set clock_domains.
       line \<in> set (if l \<noteq> c then (if ?w l c = PInf then []
       else [WorstHoldSlack l c (sec_to_nanosec (?w l c))]) else [])"
    using assms unfolding inter_domain_lines_def Let_def in_concat_map .
  then obtain l c where "line \<in> set (if l \<noteq> c then (if ?w l c = PInf then []
       else [WorstHoldSlack l c (sec_to_nanosec (?w l c))]) else [])"
    by (elim bexE)
  then have "line = WorstHoldSlack l c (sec_to_nanosec (?w l c)) \<and> ?w l c \<noteq> PInf"
    by (cases "?w l c = PInf"; cases "l = c") simp_all
  then show ?thesis by (intro exI [of _ l] exI [of _ c])
qed

lemma printed_lines:
  assumes "line \<in> set (print_hold_timing_summary clock_domains logical_outputs slacks)"
  shows "\<exists>launch capture. line = WorstHoldSlack launch capture
        (sec_to_nanosec (find_hold_worst_slack logical_outputs slacks launch capture))
     \<and> find_hold_worst_slack logical_outputs slacks launch capture \<noteq> PInf"
proof (cases "length clock_domains > 1")
  case True
  then have "line \<in> set (intra_domain_lines clock_domains logical_outputs slacks)
      \<or> line \<in> set (inter_domain_lines clock_domains logical_outputs slacks)"
    using assms by (simp add: print_hold_timing_summary_def)
  then show ?thesis using intra_lines inter_lines by blast
next
  case False
  then show ?thesis using assms by (simp add: print_hold_timing_summary_def)
qed

text \<open>
  C8: the worst hold slack of a domain pair is a minimum over exactly the tags of that pair:
  it is the start value plus infinity or the time of a matching tag, and it is at most the
  time of every matching tag. It is plus infinity if and only if no matching tag has a time
  below plus infinity; for tags with finite times, if and only if there is no matching tag at
  all. Every line the summary prints for a domain pair shows the worst slack of that pair,
  which is then not plus infinity, neither before nor after the conversion to nanoseconds.
\<close>

theorem hold_worst_slack_sentinel:
  "find_hold_worst_slack logical_outputs slacks launch capture
     \<in> insert PInf (time_value ` set (matching_tags logical_outputs slacks launch capture))
   \<and> (\<forall>tag \<in> set (matching_tags logical_outputs slacks launch capture).
        \<not> isnan (time_value tag) \<longrightarrow>
        fle (find_hold_worst_slack logical_outputs slacks launch capture) (time_value tag))
   \<and> (find_hold_worst_slack logical_outputs slacks launch capture = PInf
        \<longleftrightarrow> \<not> (\<exists>tag \<in> set (matching_tags logical_outputs slacks launch capture).
                  fless (time_value tag) PInf))
   \<and> ((\<forall>tag \<in> set (matching_tags logical_outputs slacks launch capture).
          \<exists>x. time_value tag = Fin x) \<longrightarrow>
        (find_hold_worst_slack logical_outputs slacks launch capture = PInf
           \<longleftrightarrow> matching_tags logical_outputs slacks launch capture = []))
   \<and> (\<forall>line \<in> set (print_hold_timing_summary clock_domains logical_outputs slacks).
        \<exists>l c. line = WorstHoldSlack l c
                 (sec_to_nanosec (find_hold_worst_slack logical_outputs slacks l c))
          \<and> find_hold_worst_slack logical_outputs slacks l c \<noteq> PInf
          \<and> sec_to_nanosec (find_hold_worst_slack logical_outputs slacks l c) \<noteq> PInf)"
proof -
  let ?m = "matching_tags logical_outputs slacks launch capture"
  let ?r = "find_hold_worst_slack logical_outputs slacks launch capture"
  have nn: "\<not> isnan PInf" by simp
  have c1: "?r \<in> insert PInf (time_value ` set ?m)"
    unfolding find_hold_worst_slack_matching by (rule fold_fmin_mem)
  have c2: "\<forall>tag \<in> set ?m. \<not> isnan (time_value tag) \<longrightarrow> fle ?r (time_value tag)"
  proof (intro ballI impI)
    fix tag
    assume "tag \<in> set ?m" "\<not> isnan (time_value tag)"
    then show "fle ?r (time_value tag)"
      unfolding find_hold_worst_slack_matching using nn by (intro fold_fmin_le_tag)
  qed
  have c3: "?r = PInf \<longleftrightarrow> \<not> (\<exists>tag \<in> set ?m. fless (time_value tag) PInf)"
    by (rule find_hold_worst_slack_PInf)
  have c4: "(\<forall>tag \<in> set ?m. \<exists>x. time_value tag = Fin x) \<longrightarrow> (?r = PInf \<longleftrightarrow> ?m = [])"
  proof (intro impI iffI)
    assume fin: "\<forall>tag \<in> set ?m. \<exists>x. time_value tag = Fin x"
    assume "?r = PInf"
    then have no: "\<not> (\<exists>tag \<in> set ?m. fless (time_value tag) PInf)" by (rule c3 [THEN iffD1])
    have "set ?m = {}"
    proof (rule equals0I)
      fix tag
      assume t: "tag \<in> set ?m"
      then obtain x where "time_value tag = Fin x" using fin by (elim ballE) auto
      then have "fless (time_value tag) PInf" by simp
      then have "\<exists>tag \<in> set ?m. fless (time_value tag) PInf" using t by (rule bexI)
      with no show False by (rule notE)
    qed
    then show "?m = []" by (simp only: set_empty)
  next
    assume fin: "\<forall>tag \<in> set ?m. \<exists>x. time_value tag = Fin x"
    assume "?m = []"
    then have "\<not> (\<exists>tag \<in> set ?m. fless (time_value tag) PInf)" by simp
    then show "?r = PInf" by (rule c3 [THEN iffD2])
  qed
  have c5: "\<forall>line \<in> set (print_hold_timing_summary clock_domains logical_outputs slacks).
        \<exists>l c. line = WorstHoldSlack l c
                 (sec_to_nanosec (find_hold_worst_slack logical_outputs slacks l c))
          \<and> find_hold_worst_slack logical_outputs slacks l c \<noteq> PInf
          \<and> sec_to_nanosec (find_hold_worst_slack logical_outputs slacks l c) \<noteq> PInf"
  proof
    fix line
    assume "line \<in> set (print_hold_timing_summary clock_domains logical_outputs slacks)"
    then obtain l c where lc: "line = WorstHoldSlack l c
        (sec_to_nanosec (find_hold_worst_slack logical_outputs slacks l c))"
      "find_hold_worst_slack logical_outputs slacks l c \<noteq> PInf"
      by (elim printed_lines [THEN exE] exE conjE)
    have "sec_to_nanosec (find_hold_worst_slack logical_outputs slacks l c) \<noteq> PInf"
      using lc(2) by (simp only: sec_to_nanosec_PInf not_False_eq_True)
    then show "\<exists>l c. line = WorstHoldSlack l c
                 (sec_to_nanosec (find_hold_worst_slack logical_outputs slacks l c))
          \<and> find_hold_worst_slack logical_outputs slacks l c \<noteq> PInf
          \<and> sec_to_nanosec (find_hold_worst_slack logical_outputs slacks l c) \<noteq> PInf"
      using lc by (intro exI [of _ l] exI [of _ c] conjI)
  qed
  show ?thesis using c1 c2 c3 c4 c5 by (intro conjI) assumption+
qed

theorem hold_worst_slack_sentinel_witness:
  "find_hold_worst_slack [0, 1] example_slacks 0 0 = Fin (- 2)
   \<and> find_hold_worst_slack [0, 1] example_slacks 1 0 = PInf
   \<and> print_hold_timing_summary [0, 1] [0, 1] example_slacks
       = [WorstHoldSlack 0 0 (Fin (- 2000000000)), WorstHoldSlack 1 1 (Fin (- 5000000000)),
          WorstHoldSlack 0 1 (Fin 3000000000)]"
proof -
  have m00: "matching_tags [0, 1] example_slacks 0 0 = [slack_tag 0 0 (- 2)]"
    by (simp add: matching_tags_def visited_tags_def example_slacks_def slack_tag_def)
  have m10: "matching_tags [0, 1] example_slacks 1 0 = []"
    by (simp add: matching_tags_def visited_tags_def example_slacks_def slack_tag_def)
  have a: "find_hold_worst_slack [0, 1] example_slacks 0 0 = Fin (- 2)"
    using hold_worst_slack_sentinel [of "[0, 1]" example_slacks 0 0 "[0, 1]", unfolded m00]
    by (auto simp: slack_tag_def)
  have b: "find_hold_worst_slack [0, 1] example_slacks 1 0 = PInf"
    using hold_worst_slack_sentinel [of "[0, 1]" example_slacks 1 0 "[0, 1]", unfolded m10]
    by simp
  have d: "print_hold_timing_summary [0, 1] [0, 1] example_slacks
       = [WorstHoldSlack 0 0 (Fin (- 2000000000)), WorstHoldSlack 1 1 (Fin (- 5000000000)),
          WorstHoldSlack 0 1 (Fin 3000000000)]"
    by (simp add: print_hold_timing_summary_def intra_domain_lines_def inter_domain_lines_def
        find_hold_worst_slack_def worst_slack_tag_def fmin_def sec_to_nanosec_def
        example_slacks_def slack_tag_def)
  show ?thesis using a b d by (intro conjI)
qed

section \<open>Criticality of a cluster pin\<close>

lemma Max_insert_0:
  "finite S \<Longrightarrow> S \<noteq> {} \<Longrightarrow> \<forall>c \<in> S. 0 \<le> c \<Longrightarrow> Max (insert 0 S) = Max S" for S :: "real set"
proof -
  assume a: "finite S" "S \<noteq> {}" "\<forall>c \<in> S. 0 \<le> c"
  then have "Max S \<in> S" by simp
  then have "0 \<le> Max S" using a(3) by blast
  then show ?thesis using a(1,2) by (simp add: max_def)
qed

text \<open>
  C9: the criticality of a cluster pin is zero when the pin has no atom pins; for atom pins
  with finite criticalities it is the greatest of zero and these criticalities, hence the
  maximum of the criticalities of the atom pins when there is one and none is negative. For
  the criticalities 0.3, 0.9 and 0.1 it is 0.9.
\<close>

theorem clb_pin_criticality_is_max:
  "(find_clb_pin_connected_atom_pins (block (clbs_nlist inet ipin))
        (block_pin (clbs_nlist inet ipin)) = [] \<longrightarrow>
      calculate_clb_net_pin_criticality setup_pin_criticality find_clb_pin_connected_atom_pins
        clbs_nlist inet ipin = Fin 0)
   \<and> (map setup_pin_criticality
         (find_clb_pin_connected_atom_pins (block (clbs_nlist inet ipin))
            (block_pin (clbs_nlist inet ipin))) = map Fin cs \<longrightarrow>
      calculate_clb_net_pin_criticality setup_pin_criticality find_clb_pin_connected_atom_pins
        clbs_nlist inet ipin = Fin (Max (insert 0 (set cs))))
   \<and> (map setup_pin_criticality
         (find_clb_pin_connected_atom_pins (block (clbs_nlist inet ipin))
            (block_pin (clbs_nlist inet ipin))) = map Fin cs
        \<and> cs \<noteq> [] \<and> (\<forall>c \<in> set cs. 0 \<le> c) \<longrightarrow>
      calculate_clb_net_pin_criticality setup_pin_criticality find_clb_pin_connected_atom_pins
        clbs_nlist inet ipin = Fin (Max (set cs)))"
proof -
  let ?pins = "find_clb_pin_connected_atom_pins (block (clbs_nlist inet ipin))
        (block_pin (clbs_nlist inet ipin))"
  let ?r = "calculate_clb_net_pin_criticality setup_pin_criticality
        find_clb_pin_connected_atom_pins clbs_nlist inet ipin"
  have eq: "?r = fold (\<lambda>pin c. fmax c (setup_pin_criticality pin)) ?pins (Fin 0)"
    by (simp add: calculate_clb_net_pin_criticality_def Let_def)
  have c1: "?pins = [] \<longrightarrow> ?r = Fin 0"
    by (simp add: eq)
  have c2: "map setup_pin_criticality ?pins = map Fin cs \<longrightarrow> ?r = Fin (Max (insert 0 (set cs)))"
    unfolding eq using fold_fmax_Fin [of setup_pin_criticality ?pins cs 0] by (intro impI)
  have c3: "map setup_pin_criticality ?pins = map Fin cs \<and> cs \<noteq> [] \<and> (\<forall>c \<in> set cs. 0 \<le> c)
      \<longrightarrow> ?r = Fin (Max (set cs))"
  proof (intro impI, elim conjE)
    assume a: "map setup_pin_criticality ?pins = map Fin cs" "cs \<noteq> []" "\<forall>c \<in> set cs. 0 \<le> c"
    have "Max (insert 0 (set cs)) = Max (set cs)"
      using a(2,3) by (intro Max_insert_0) simp_all
    then show "?r = Fin (Max (set cs))" using c2 a(1) by simp
  qed
  show ?thesis using c1 c2 c3 by (intro conjI)
qed

theorem clb_pin_criticality_is_max_witness:
  "calculate_clb_net_pin_criticality example_pin_criticality example_atom_pins
     example_clbs_nlist 0 1 = Fin (9 / 10)
   \<and> calculate_clb_net_pin_criticality example_pin_criticality example_atom_pins
     example_clbs_nlist 0 0 = Fin 0"
  using clb_pin_criticality_is_max [of example_atom_pins example_clbs_nlist 0 1
      example_pin_criticality "[3 / 10, 9 / 10, 1 / 10]"]
    clb_pin_criticality_is_max [of example_atom_pins example_clbs_nlist 0 0
      example_pin_criticality "[]"]
  by (simp add: example_atom_pins_def example_clbs_nlist_def example_pin_criticality_def)

section \<open>Clock fanouts\<close>

lemma fold_add_fanout:
  "fold add_fanout tags m d =
     (if launched_by d tags = 0 then m d else Some (fanout_of m d + launched_by d tags))"
proof (induction tags arbitrary: m)
  case Nil
  then show ?case by (simp add: launched_by_def)
next
  case (Cons t tags)
  show ?case
  proof (cases "launch_clock_domain t = d")
    case True
    then have "add_fanout t m d = Some (fanout_of m d + 1)"
      by (simp add: add_fanout_def fanout_of_def Let_def)
    then show ?thesis using True Cons.IH [of "add_fanout t m"]
      by (simp add: launched_by_def fanout_of_def)
  next
    case False
    then have "add_fanout t m d = m d" by (simp add: add_fanout_def Let_def)
    then show ?thesis using False Cons.IH [of "add_fanout t m"]
      by (simp add: launched_by_def fanout_of_def)
  qed
qed

lemma count_node_fanouts_at:
  "count_node_fanouts node_type setup_tags node m d =
     (if fanout_units node_type setup_tags d node = 0 then m d
      else Some (fanout_of m d + fanout_units node_type setup_tags d node))"
  by (simp add: count_node_fanouts_def fanout_units_def Let_def fold_add_fanout fanout_of_def)

lemma fold_count_node_fanouts:
  "fold (count_node_fanouts node_type setup_tags) nodes m d =
     (if sum_list (map (fanout_units node_type setup_tags d) nodes) = 0 then m d
      else Some (fanout_of m d + sum_list (map (fanout_units node_type setup_tags d) nodes)))"
proof (induction nodes arbitrary: m)
  case Nil
  then show ?case by simp
next
  case (Cons n nodes)
  show ?case
    using Cons.IH [of "count_node_fanouts node_type setup_tags n m"]
    by (simp add: count_node_fanouts_at [of node_type setup_tags n m d] fanout_of_def)
qed

text \<open>
  C10: the fanout of a launch domain is the sum, over the nodes of type source or sink, of the
  number of arrival tags and the number of required tags of the node that the domain
  launches; nodes of other types add nothing, and a domain with no such tag has no entry. A
  node with an arrival tag and a required tag of one launch domain adds two.
\<close>

theorem fanouts_count_both_tag_kinds:
  "count_clock_fanouts nodes node_type setup_tags d =
     (if sum_list (map (fanout_units node_type setup_tags d) nodes) = 0 then None
      else Some (sum_list (map (fanout_units node_type setup_tags d) nodes)))"
  by (simp add: count_clock_fanouts_def fold_count_node_fanouts fanout_of_def)

theorem fanouts_count_both_tag_kinds_witness:
  "count_clock_fanouts [0, 1, 2] example_node_type example_setup_tags 0 = Some 2
   \<and> count_clock_fanouts [0, 1, 2] example_node_type example_setup_tags 1 = Some 2
   \<and> count_clock_fanouts [2] example_node_type example_setup_tags 0 = None"
  using fanouts_count_both_tag_kinds [of "[0, 1, 2]" example_node_type example_setup_tags 0]
    fanouts_count_both_tag_kinds [of "[0, 1, 2]" example_node_type example_setup_tags 1]
    fanouts_count_both_tag_kinds [of "[2]" example_node_type example_setup_tags 0]
  by (simp add: fanout_units_def launched_by_def example_node_type_def example_setup_tags_def
      example_tag_def)

section \<open>Slack histograms\<close>

lemma length_create_buckets: "length (create_buckets n bucket_min bin_size) = n"
  by (induction n arbitrary: bucket_min) (simp_all add: Let_def)

lemma count_create_buckets:
  "b \<in> set (create_buckets n bucket_min bin_size) \<Longrightarrow> count b = 0"
  by (induction n arbitrary: bucket_min) (auto simp: Let_def new_bucket_def)

lemma set_last_max_Inr:
  assumes "histogram \<noteq> []"
  shows "\<exists>h. set_last_max histogram max_slack = Inr h \<and> length h = length histogram
           \<and> map count h = map count histogram \<and> max_value (last h) = max_slack"
proof -
  let ?i = "length histogram - 1"
  let ?h = "histogram[?i := (histogram ! ?i)\<lparr>max_value := max_slack\<rparr>]"
  have i: "?i < length histogram" using assms by (cases histogram) simp_all
  have "set_last_max histogram max_slack = Inr ?h" using assms by (simp add: set_last_max_def)
  moreover have "length ?h = length histogram" by simp
  moreover have "map count ?h = map count histogram"
    using i by (simp add: map_update list_update_same_conv)
  moreover have "max_value (last ?h) = max_slack"
    using i assms by (simp add: last_conv_nth)
  ultimately show ?thesis by (intro exI [of _ ?h] conjI)
qed

lemma lower_bound_le:
  "lower_bound histogram slack first len \<le> first + len"
proof (induction histogram slack first len rule: lower_bound.induct)
  case (1 histogram slack first len)
  show ?case
  proof (cases "len = 0")
    case True
    then show ?thesis by (simp add: lower_bound.simps)
  next
    case False
    show ?thesis
    proof (cases "comp_bucket (histogram ! (first + len div 2)) slack")
      case True
      have "lower_bound histogram slack (first + len div 2 + 1) (len - len div 2 - 1)
              \<le> first + len div 2 + 1 + (len - len div 2 - 1)"
        using False True by (intro "1.IH"(1)) simp_all
      then show ?thesis using False True
        by (subst lower_bound.simps) (simp add: Let_def)
    next
      case c: False
      have "lower_bound histogram slack first (len div 2) \<le> first + len div 2"
        using False c by (intro "1.IH"(2)) simp_all
      then show ?thesis using False c
        by (subst lower_bound.simps) (simp add: Let_def)
    qed
  qed
qed

lemma lower_bound_end:
  "0 < len \<Longrightarrow> lower_bound histogram slack first len = first + len
     \<Longrightarrow> comp_bucket (histogram ! (first + len - 1)) slack"
proof (induction histogram slack first len rule: lower_bound.induct)
  case (1 histogram slack first len)
  let ?half = "len div 2"
  have half: "?half < len" using "1.prems"(1) by simp
  show ?case
  proof (cases "comp_bucket (histogram ! (first + ?half)) slack")
    case True
    have eq: "lower_bound histogram slack first len
          = lower_bound histogram slack (first + ?half + 1) (len - ?half - 1)"
      using "1.prems"(1) True by (subst lower_bound.simps) (simp add: Let_def)
    show ?thesis
    proof (cases "len - ?half - 1 = 0")
      case z: True
      then have "first + len - 1 = first + ?half" using half by simp
      then show ?thesis using True by simp
    next
      case nz: False
      have "comp_bucket (histogram ! (first + ?half + 1 + (len - ?half - 1) - 1)) slack"
      proof (rule "1.IH"(1))
        show "len \<noteq> 0" using "1.prems"(1) by simp
        show "?half = len div 2" by simp
        show "first + ?half = first + ?half" by simp
        show "comp_bucket (histogram ! (first + ?half)) slack" by (rule True)
        show "0 < len - ?half - 1" using nz by simp
        show "lower_bound histogram slack (first + ?half + 1) (len - ?half - 1)
                = first + ?half + 1 + (len - ?half - 1)"
          using "1.prems"(2) eq half by simp
      qed
      moreover have "first + ?half + 1 + (len - ?half - 1) - 1 = first + len - 1"
        using half by simp
      ultimately show ?thesis by simp
    qed
  next
    case False
    have eq: "lower_bound histogram slack first len = lower_bound histogram slack first ?half"
      using "1.prems"(1) False by (subst lower_bound.simps) (simp add: Let_def)
    have "lower_bound histogram slack first ?half \<le> first + ?half" by (rule lower_bound_le)
    then have "lower_bound histogram slack first len < first + len" using eq half by simp
    then show ?thesis using "1.prems"(2) by simp
  qed
qed

lemma lower_bound_found:
  assumes "histogram \<noteq> []" and "\<not> comp_bucket (last histogram) slack"
  shows "lower_bound histogram slack 0 (length histogram) < length histogram"
proof -
  have len: "0 < length histogram" using assms(1) by simp
  have "lower_bound histogram slack 0 (length histogram) \<le> 0 + length histogram"
    by (rule lower_bound_le)
  moreover have "lower_bound histogram slack 0 (length histogram) \<noteq> 0 + length histogram"
  proof
    assume "lower_bound histogram slack 0 (length histogram) = 0 + length histogram"
    then have "comp_bucket (histogram ! (0 + length histogram - 1)) slack"
      using len by (intro lower_bound_end)
    then show False using assms by (simp add: last_conv_nth)
  qed
  ultimately show ?thesis by simp
qed

lemma sum_count_update:
  "i < length h \<Longrightarrow>
   sum_list (map count (h[i := (h ! i)\<lparr>count := count (h ! i) + 1\<rparr>])) = sum_list (map count h) + 1"
proof (induction h arbitrary: i)
  case Nil
  then show ?case by simp
next
  case (Cons b h)
  then show ?case by (cases i) simp_all
qed

lemma max_value_update:
  "i < length h \<Longrightarrow>
   map max_value (h[i := (h ! i)\<lparr>count := count (h ! i) + 1\<rparr>]) = map max_value h"
  by (simp add: map_update list_update_same_conv)

lemma counts_nonneg_update:
  assumes "i < length h" and "\<forall>b \<in> set h. 0 \<le> count b"
  shows "\<forall>b \<in> set (h[i := (h ! i)\<lparr>count := count (h ! i) + 1\<rparr>]). 0 \<le> count b"
proof
  fix b
  assume "b \<in> set (h[i := (h ! i)\<lparr>count := count (h ! i) + 1\<rparr>])"
  then have "b \<in> insert ((h ! i)\<lparr>count := count (h ! i) + 1\<rparr>) (set h)"
    using set_update_subset_insert by fastforce
  moreover have "0 \<le> count (h ! i)" using assms by simp
  ultimately show "0 \<le> count b" using assms(2) by auto
qed

lemma counted_refl: "counted h 0 h"
  by (simp add: counted_def)

lemma counted_trans: "counted h j h' \<Longrightarrow> counted h' k h'' \<Longrightarrow> counted h (j + k) h''"
  by (simp add: counted_def)

lemma last_max_value: "h \<noteq> [] \<Longrightarrow> map max_value h' = map max_value h
    \<Longrightarrow> max_value (last h') = max_value (last h)"
proof -
  assume a: "h \<noteq> []" "map max_value h' = map max_value h"
  then have "h' \<noteq> []" by auto
  then have "max_value (last h') = last (map max_value h')" by (simp add: last_map)
  also have "\<dots> = last (map max_value h)" using a(2) by simp
  also have "\<dots> = max_value (last h)" using a(1) by (simp add: last_map)
  finally show ?thesis .
qed

lemma count_slack_Inr:
  assumes "histogram \<noteq> []" and "\<not> fless (max_value (last histogram)) (time_value tag)"
  shows "\<exists>h. count_slack tag histogram = Inr h \<and> counted histogram 1 h"
proof -
  let ?i = "lower_bound histogram (time_value tag) 0 (length histogram)"
  let ?h = "histogram[?i := (histogram ! ?i)\<lparr>count := count (histogram ! ?i) + 1\<rparr>]"
  have i: "?i < length histogram"
    using assms by (intro lower_bound_found) (simp_all add: comp_bucket_def)
  then have "count_slack tag histogram = Inr ?h" by (simp add: count_slack_def Let_def)
  moreover have "counted histogram 1 ?h"
    unfolding counted_def
    using sum_count_update [OF i] max_value_update [OF i] counts_nonneg_update [OF i]
    by simp
  ultimately show ?thesis by (intro exI [of _ ?h] conjI)
qed

lemma count_tags_Inr:
  "histogram \<noteq> [] \<Longrightarrow>
   \<forall>tag \<in> set tags. \<not> fless (max_value (last histogram)) (time_value tag) \<Longrightarrow>
   \<exists>h. count_tags tags histogram = Inr h \<and> counted histogram (length tags) h"
proof (induction tags arbitrary: histogram)
  case Nil
  then show ?case by (simp add: counted_refl)
next
  case (Cons tag tags)
  obtain h1 where h1: "count_slack tag histogram = Inr h1" "counted histogram 1 h1"
    using count_slack_Inr [of histogram tag] Cons.prems by auto
  have ne: "h1 \<noteq> []" using h1(2) Cons.prems(1) by (auto simp: counted_def)
  have "max_value (last h1) = max_value (last histogram)"
    using Cons.prems(1) h1(2) by (intro last_max_value) (simp_all add: counted_def)
  then have "\<forall>tag \<in> set tags. \<not> fless (max_value (last h1)) (time_value tag)"
    using Cons.prems(2) by simp
  then obtain h where h: "count_tags tags h1 = Inr h" "counted h1 (length tags) h"
    using Cons.IH [OF ne] by auto
  have "counted histogram (1 + length tags) h" using h1(2) h(2) by (rule counted_trans)
  then show ?case using h1(1) h(1) by simp
qed

lemma count_nodes_Inr:
  "histogram \<noteq> [] \<Longrightarrow>
   \<forall>tag \<in> set (visited_tags nodes slacks). \<not> fless (max_value (last histogram)) (time_value tag) \<Longrightarrow>
   \<exists>h. count_nodes nodes slacks histogram = Inr h
        \<and> counted histogram (length (visited_tags nodes slacks)) h"
proof (induction nodes arbitrary: histogram)
  case Nil
  then show ?case by (simp add: counted_refl visited_tags_def)
next
  case (Cons node nodes)
  have v: "visited_tags (node # nodes) slacks = slacks node @ visited_tags nodes slacks"
    by (simp add: visited_tags_def)
  have "\<forall>tag \<in> set (slacks node). \<not> fless (max_value (last histogram)) (time_value tag)"
    using Cons.prems(2) v by simp
  then obtain h1 where h1: "count_tags (slacks node) histogram = Inr h1"
    "counted histogram (length (slacks node)) h1"
    using count_tags_Inr [OF Cons.prems(1)] by blast
  have ne: "h1 \<noteq> []" using h1(2) Cons.prems(1) by (auto simp: counted_def)
  have "max_value (last h1) = max_value (last histogram)"
    using Cons.prems(1) h1(2) by (intro last_max_value) (simp_all add: counted_def)
  then have "\<forall>tag \<in> set (visited_tags nodes slacks).
      \<not> fless (max_value (last h1)) (time_value tag)"
    using Cons.prems(2) v by simp
  then obtain h where h: "count_nodes nodes slacks h1 = Inr h"
    "counted h1 (length (visited_tags nodes slacks)) h"
    using Cons.IH [OF ne] by auto
  have "counted histogram (length (slacks node) + length (visited_tags nodes slacks)) h"
    using h1(2) h(2) by (rule counted_trans)
  then show ?case using h1(1) h(1) v by simp
qed

lemma fold_fmax_ge_acc:
  "\<not> isnan w \<Longrightarrow> fle w (fold (\<lambda>tag m. fmax m (time_value tag)) tags w)"
proof (induction tags arbitrary: w)
  case Nil
  then show ?case by (simp add: fle_refl)
next
  case (Cons t tags)
  have "fle (fmax w (time_value t))
          (fold (\<lambda>tag m. fmax m (time_value tag)) tags (fmax w (time_value t)))"
    using Cons.prems by (intro Cons.IH fmax_not_nan)
  moreover have "fle w (fmax w (time_value t))" using Cons.prems by (rule fmax_ge_left)
  ultimately show ?case by (auto intro: fle_trans)
qed

lemma fold_fmax_not_below:
  "\<not> isnan w \<Longrightarrow> tag \<in> set tags
     \<Longrightarrow> \<not> fless (fold (\<lambda>tag m. fmax m (time_value tag)) tags w) (time_value tag)"
proof (induction tags arbitrary: w)
  case Nil
  then show ?case by simp
next
  case (Cons t tags)
  have nn: "\<not> isnan (fmax w (time_value t))" using Cons.prems(1) by (rule fmax_not_nan)
  show ?case
  proof (cases "tag = t")
    case True
    have le: "fle (fmax w (time_value t))
            (fold (\<lambda>tag m. fmax m (time_value tag)) tags (fmax w (time_value t)))"
      using nn by (rule fold_fmax_ge_acc)
    have "\<not> fless (fold (\<lambda>tag m. fmax m (time_value tag)) tags (fmax w (time_value t)))
            (time_value t)"
    proof
      assume "fless (fold (\<lambda>tag m. fmax m (time_value tag)) tags (fmax w (time_value t)))
            (time_value t)"
      with le have "fless (fmax w (time_value t)) (time_value t)" by (rule fle_fless_trans)
      then show False by (simp add: fmax_not_below_right)
    qed
    then show ?thesis using True by simp
  next
    case False
    then show ?thesis using Cons.IH [OF nn] Cons.prems by simp
  qed
qed

lemma snd_fold_min_max_tag:
  "snd (fold min_max_tag tags mm) = fold (\<lambda>tag m. fmax m (time_value tag)) tags (snd mm)"
  by (induction tags arbitrary: mm) (simp_all add: min_max_tag_def Let_def)

lemma snd_min_max_slack:
  "snd (min_max_slack logical_outputs slacks)
     = fold (\<lambda>tag m. fmax m (time_value tag)) (visited_tags logical_outputs slacks) MInf"
proof -
  have "min_max_slack logical_outputs slacks
          = fold min_max_tag (visited_tags logical_outputs slacks) (PInf, MInf)"
    unfolding min_max_slack_def by (rule fold_nodes_tags)
  then show ?thesis by (simp add: snd_fold_min_max_tag)
qed

lemma fold_fmax_MInf_Fin:
  assumes "map time_value tags = map Fin xs" and "xs \<noteq> []"
  shows "fold (\<lambda>tag m. fmax m (time_value tag)) tags MInf = Fin (Max (set xs))"
proof -
  obtain x xs' where xs: "xs = x # xs'" using assms(2) by (cases xs) simp_all
  then obtain t tags' where t: "tags = t # tags'" "time_value t = Fin x"
    "map time_value tags' = map Fin xs'"
    using assms(1) by (cases tags) auto
  have "fmax MInf (Fin x) = Fin x" by (simp add: fmax_def)
  then have "fold (\<lambda>tag m. fmax m (time_value tag)) tags MInf
          = fold (\<lambda>tag m. fmax m (time_value tag)) tags' (Fin x)"
    using t(1,2) by simp
  also have "\<dots> = Fin (Max (insert x (set xs')))" using t(3) by (rule fold_fmax_Fin)
  finally show ?thesis using xs by simp
qed

lemma create_setup_slack_histogram_Inr:
  assumes "1 \<le> num_bins"
  shows "\<exists>h. create_setup_slack_histogram logical_outputs slacks num_bins = Inr h
           \<and> length h = num_bins
           \<and> sum_list (map count h) = int (length (visited_tags logical_outputs slacks))
           \<and> (\<forall>b \<in> set h. 0 \<le> count b)
           \<and> max_value (last h) = snd (min_max_slack logical_outputs slacks)"
proof -
  obtain mn mx where mm: "min_max_slack logical_outputs slacks = (mn, mx)"
    by (cases "min_max_slack logical_outputs slacks")
  let ?bin = "fdiv (fsub mx mn) (to_float (real num_bins))"
  let ?h0 = "create_buckets num_bins mn ?bin"
  have len0: "length ?h0 = num_bins" by (rule length_create_buckets)
  then have ne0: "?h0 \<noteq> []" using assms by auto
  obtain h1 where h1: "set_last_max ?h0 mx = Inr h1" "length h1 = length ?h0"
    "map count h1 = map count ?h0" "max_value (last h1) = mx"
    using set_last_max_Inr [OF ne0, of mx] by (elim exE conjE)
  have ne1: "h1 \<noteq> []" using h1(2) ne0 by auto
  have zero0: "map count ?h0 = map (\<lambda>b. 0) ?h0"
    by (rule map_cong) (simp_all add: count_create_buckets)
  have sum1: "sum_list (map count h1) = 0" using h1(3) zero0 by simp
  have nonneg1: "\<forall>b \<in> set h1. 0 \<le> count b"
  proof
    fix b assume "b \<in> set h1"
    then have "count b \<in> set (map count h1)" by simp
    then have "count b \<in> set (map count ?h0)" using h1(3) by simp
    then show "0 \<le> count b" by (auto simp: count_create_buckets)
  qed
  have mx: "mx = fold (\<lambda>tag m. fmax m (time_value tag)) (visited_tags logical_outputs slacks) MInf"
    using snd_min_max_slack [of logical_outputs slacks] mm by simp
  have "\<forall>tag \<in> set (visited_tags logical_outputs slacks).
          \<not> fless (max_value (last h1)) (time_value tag)"
    unfolding h1(4) mx by (intro ballI fold_fmax_not_below) simp_all
  then obtain h where h: "count_nodes logical_outputs slacks h1 = Inr h"
    "counted h1 (length (visited_tags logical_outputs slacks)) h"
    using count_nodes_Inr [OF ne1] by blast
  have r: "create_setup_slack_histogram logical_outputs slacks num_bins = Inr h"
    using mm h1(1) h(1) by (simp add: create_setup_slack_histogram_def Let_def)
  have "length h = num_bins" using h(2) h1(2) len0 by (simp add: counted_def)
  moreover have "sum_list (map count h) = int (length (visited_tags logical_outputs slacks))"
    using h(2) sum1 by (simp add: counted_def)
  moreover have "\<forall>b \<in> set h. 0 \<le> count b" using h(2) nonneg1 by (simp add: counted_def)
  moreover have "max_value (last h) = max_value (last h1)"
    using ne1 h(2) by (intro last_max_value) (simp_all add: counted_def)
  ultimately show ?thesis using r h1(4) mm by (intro exI [of _ h]) simp
qed

text \<open>
  C4: with at least one bin the histogram is built without an error, for any slacks of the
  output nodes: the search for the bucket of a slack never ends at the end of the buckets.
  The histogram has the requested number of buckets, its counts add up to the number of
  slacks and none is negative, no slack is above the upper bound of the last bucket, and
  for finite slacks, of which there is at least one, this bound is the greatest slack. The
  hold histogram is computed as the setup histogram.
\<close>

theorem histogram_counts_every_slack:
  "(1 \<le> num_bins \<longrightarrow>
      (\<exists>h. create_setup_slack_histogram logical_outputs slacks num_bins = Inr h
         \<and> length h = num_bins
         \<and> sum_list (map count h) = int (length (visited_tags logical_outputs slacks))
         \<and> (\<forall>b \<in> set h. 0 \<le> count b)
         \<and> (\<forall>tag \<in> set (visited_tags logical_outputs slacks).
              \<not> fless (max_value (last h)) (time_value tag))
         \<and> (xs \<noteq> [] \<and> map time_value (visited_tags logical_outputs slacks) = map Fin xs \<longrightarrow>
              max_value (last h) = Fin (Max (set xs)))))
   \<and> create_hold_slack_histogram logical_outputs slacks num_bins
       = create_setup_slack_histogram logical_outputs slacks num_bins"
proof (intro conjI impI)
  assume n: "1 \<le> num_bins"
  obtain h where h: "create_setup_slack_histogram logical_outputs slacks num_bins = Inr h"
    "length h = num_bins"
    "sum_list (map count h) = int (length (visited_tags logical_outputs slacks))"
    "\<forall>b \<in> set h. 0 \<le> count b"
    "max_value (last h) = snd (min_max_slack logical_outputs slacks)"
    using create_setup_slack_histogram_Inr [OF n, of logical_outputs slacks]
    by (elim exE conjE)
  have mx: "max_value (last h)
      = fold (\<lambda>tag m. fmax m (time_value tag)) (visited_tags logical_outputs slacks) MInf"
    using h(5) by (simp add: snd_min_max_slack)
  have a: "\<forall>tag \<in> set (visited_tags logical_outputs slacks).
              \<not> fless (max_value (last h)) (time_value tag)"
    unfolding mx by (intro ballI fold_fmax_not_below) simp_all
  have b: "xs \<noteq> [] \<and> map time_value (visited_tags logical_outputs slacks) = map Fin xs \<longrightarrow>
              max_value (last h) = Fin (Max (set xs))"
    unfolding mx using fold_fmax_MInf_Fin [of "visited_tags logical_outputs slacks" xs]
    by (intro impI) simp
  show "\<exists>h. create_setup_slack_histogram logical_outputs slacks num_bins = Inr h
         \<and> length h = num_bins
         \<and> sum_list (map count h) = int (length (visited_tags logical_outputs slacks))
         \<and> (\<forall>b \<in> set h. 0 \<le> count b)
         \<and> (\<forall>tag \<in> set (visited_tags logical_outputs slacks).
              \<not> fless (max_value (last h)) (time_value tag))
         \<and> (xs \<noteq> [] \<and> map time_value (visited_tags logical_outputs slacks) = map Fin xs \<longrightarrow>
              max_value (last h) = Fin (Max (set xs)))"
    using h(1,2,3,4) a b by (intro exI [of _ h] conjI)
next
  show "create_hold_slack_histogram logical_outputs slacks num_bins
       = create_setup_slack_histogram logical_outputs slacks num_bins"
    by (simp add: create_hold_slack_histogram_def create_setup_slack_histogram_def)
qed

theorem histogram_counts_every_slack_witness:
  "\<exists>h. create_setup_slack_histogram [0, 1] example_histogram_slacks 4 = Inr h
      \<and> length h = 4
      \<and> sum_list (map count h) = 5
      \<and> max_value (last h) = Fin 4"
proof -
  have n: "(1::nat) \<le> 4" by simp
  have v: "map time_value (visited_tags [0, 1] example_histogram_slacks)
             = map Fin [- 3, - 1, 0, 2, 4]"
    by (simp add: visited_tags_def example_histogram_slacks_def slack_tag_def)
  have l: "length (visited_tags [0, 1] example_histogram_slacks) = 5"
    by (simp add: visited_tags_def example_histogram_slacks_def)
  from histogram_counts_every_slack [of 4 "[0, 1]" example_histogram_slacks "[- 3, - 1, 0, 2, 4]"] n v
  obtain h where h: "create_setup_slack_histogram [0, 1] example_histogram_slacks 4 = Inr h"
    "length h = 4"
    "sum_list (map count h) = int (length (visited_tags [0, 1] example_histogram_slacks))"
    "\<forall>b \<in> set h. 0 \<le> count b"
    "max_value (last h) = Fin (Max (set [- 3, - 1, 0, 2, 4]))"
    by auto
  have "sum_list (map count h) = 5" using h(3) l by simp
  moreover have "max_value (last h) = Fin 4" using h(5) by simp
  ultimately show ?thesis using h(1,2) by (intro exI [of _ h] conjI)
qed

section \<open>Relaxed criticality\<close>

subsection \<open>The criticality of one tag\<close>

lemma shift_by_worst_slack_cases:
  assumes "shift_by_worst_slack worst_slack slack max_req = Inr (slack', max_req')"
  shows "(\<not> fless worst_slack (Fin 0) \<and> slack' = slack \<and> max_req' = max_req)
       \<or> (fless worst_slack (Fin 0) \<and> slack' = fadd slack (fneg worst_slack)
            \<and> max_req' = fadd max_req (fneg worst_slack))"
  using assms by (auto simp: shift_by_worst_slack_def Let_def split: if_splits)

lemma shift_by_worst_slack_mono:
  assumes "shift_by_worst_slack worst_slack slack1 max_req = Inr (slack1', max_req1)"
    and "shift_by_worst_slack worst_slack slack2 max_req = Inr (slack2', max_req2)"
    and "fle slack1 slack2" and "\<not> isnan slack1'" and "\<not> isnan slack2'"
  shows "max_req1 = max_req2 \<and> fle slack1' slack2'"
proof (cases "fless worst_slack (Fin 0)")
  case True
  then have e: "slack1' = add_rounded to_float slack1 (fneg worst_slack)"
    "slack2' = add_rounded to_float slack2 (fneg worst_slack)"
    "max_req1 = max_req2"
    using shift_by_worst_slack_cases [OF assms(1)] shift_by_worst_slack_cases [OF assms(2)]
    by (simp_all add: fadd_def)
  have "fle (add_rounded to_float slack1 (fneg worst_slack))
            (add_rounded to_float slack2 (fneg worst_slack))"
    using to_float_mono assms(3,4,5) unfolding e by (intro add_rounded_mono_left)
  then show ?thesis using e by simp
next
  case False
  then show ?thesis
    using shift_by_worst_slack_cases [OF assms(1)] shift_by_worst_slack_cases [OF assms(2)]
      assms(3) by simp
qed

lemma tag_criticality_InrE:
  assumes "tag_criticality domains_max_req domains_worst_slack tag = Inr c"
  obtains max_req worst_slack slack' max_req' where
    "tag_type tag = SLACK"
    "domains_max_req (launch_clock_domain tag, capture_clock_domain tag) = Some max_req"
    "domains_worst_slack (launch_clock_domain tag, capture_clock_domain tag) = Some worst_slack"
    "shift_by_worst_slack worst_slack (time_value tag) max_req = Inr (slack', max_req')"
    "fless (Fin 0) max_req'"
    "check_and_clamp (unclamped_criticality slack' max_req') = Inr c"
  using assms
  by (auto simp: tag_criticality_def Let_def split: if_splits option.splits sum.splits)

lemma tag_criticality_InrI:
  assumes "tag_type tag = SLACK"
    and "domains_max_req (launch_clock_domain tag, capture_clock_domain tag) = Some max_req"
    and "domains_worst_slack (launch_clock_domain tag, capture_clock_domain tag) = Some worst_slack"
    and "shift_by_worst_slack worst_slack (time_value tag) max_req = Inr (slack', max_req')"
    and "fless (Fin 0) max_req'"
  shows "tag_criticality domains_max_req domains_worst_slack tag
           = check_and_clamp (unclamped_criticality slack' max_req')"
  using assms by (simp add: tag_criticality_def Let_def)

lemma tag_criticality_Inr:
  "tag_criticality domains_max_req domains_worst_slack tag = Inr c
     \<Longrightarrow> \<exists>x. c = Fin x \<and> 0 \<le> x \<and> x \<le> 1"
  by (elim tag_criticality_InrE) (use check_and_clamp_Inr in blast)

lemma max_criticality_Inr:
  "max_criticality domains_max_req domains_worst_slack tags (Fin a) = Inr r \<Longrightarrow>
   0 \<le> a \<Longrightarrow> a \<le> 1 \<Longrightarrow> \<exists>x. r = Fin x \<and> a \<le> x \<and> x \<le> 1"
proof (induction tags arbitrary: a)
  case Nil
  then show ?case by auto
next
  case (Cons tag tags)
  from Cons.prems(1) obtain crit where
    crit: "tag_criticality domains_max_req domains_worst_slack tag = Inr crit"
    and rest: "max_criticality domains_max_req domains_worst_slack tags (fmax (Fin a) crit) = Inr r"
    by (simp split: sum.splits)
  from tag_criticality_Inr [OF crit] obtain c where c: "crit = Fin c" "0 \<le> c" "c \<le> 1"
    by (elim exE conjE)
  have "max_criticality domains_max_req domains_worst_slack tags (Fin (max a c)) = Inr r"
    using rest c(1) by (simp add: fmax_Fin)
  moreover have "0 \<le> max a c" "max a c \<le> 1" using Cons.prems(2,3) c(2,3) by simp_all
  ultimately have "\<exists>x. r = Fin x \<and> max a c \<le> x \<and> x \<le> 1"
    by (rule Cons.IH)
  then obtain x where "r = Fin x" "max a c \<le> x" "x \<le> 1"
    by (elim exE conjE)
  then show ?case by (intro exI [of _ x]) simp
qed

lemma max_criticality_total:
  "list_all (\<lambda>tag. \<exists>c. tag_criticality domains_max_req domains_worst_slack tag = Inr c) tags
   \<Longrightarrow> \<exists>r. max_criticality domains_max_req domains_worst_slack tags max_crit = Inr r"
proof (induction tags arbitrary: max_crit)
  case Nil
  then show ?case by simp
next
  case (Cons tag tags)
  then obtain c where c: "tag_criticality domains_max_req domains_worst_slack tag = Inr c"
    by auto
  have "\<exists>r. max_criticality domains_max_req domains_worst_slack tags (fmax max_crit c) = Inr r"
    using Cons.prems by (intro Cons.IH) simp
  then show ?case using c by simp
qed

lemma calc_relaxed_criticality_Inr:
  "calc_relaxed_criticality domains_max_req domains_worst_slack tags = Inr r
     \<Longrightarrow> \<exists>x. r = Fin x \<and> 0 \<le> x \<and> x \<le> 1"
proof -
  assume a: "calc_relaxed_criticality domains_max_req domains_worst_slack tags = Inr r"
  then have "max_criticality domains_max_req domains_worst_slack tags (Fin 0) = Inr r"
    by (simp add: calc_relaxed_criticality_def split: sum.splits if_splits)
  then obtain x where "r = Fin x" "0 \<le> x" "x \<le> 1"
    using max_criticality_Inr [of domains_max_req domains_worst_slack tags 0 r]
    by auto
  then show ?thesis by (intro exI [of _ x]) simp
qed

lemma calc_relaxed_criticality_max:
  "max_criticality domains_max_req domains_worst_slack tags (Fin 0) = Inr r \<Longrightarrow>
   calc_relaxed_criticality domains_max_req domains_worst_slack tags = Inr r"
proof -
  assume a: "max_criticality domains_max_req domains_worst_slack tags (Fin 0) = Inr r"
  then obtain x where "r = Fin x" "0 \<le> x" "x \<le> 1"
    using max_criticality_Inr [of domains_max_req domains_worst_slack tags 0 r]
    by auto
  then show ?thesis using a by (simp add: calc_relaxed_criticality_def)
qed

lemma calc_relaxed_criticality_single:
  assumes "tag_criticality domains_max_req domains_worst_slack tag = Inr c"
  shows "calc_relaxed_criticality domains_max_req domains_worst_slack [tag] = Inr c"
proof -
  obtain x where x: "c = Fin x" "0 \<le> x" "x \<le> 1"
    using tag_criticality_Inr [OF assms] by (elim exE conjE)
  have "max_criticality domains_max_req domains_worst_slack [tag] (Fin 0) = Inr c"
    using assms x by (simp add: fmax_Fin)
  then show ?thesis by (rule calc_relaxed_criticality_max)
qed

lemma calc_relaxed_criticality_single_iff:
  "calc_relaxed_criticality domains_max_req domains_worst_slack [tag] = Inr c
     \<longleftrightarrow> tag_criticality domains_max_req domains_worst_slack tag = Inr c"
proof
  assume a: "calc_relaxed_criticality domains_max_req domains_worst_slack [tag] = Inr c"
  then obtain crit where crit: "tag_criticality domains_max_req domains_worst_slack tag = Inr crit"
    by (cases "tag_criticality domains_max_req domains_worst_slack tag")
      (simp_all add: calc_relaxed_criticality_def)
  then have "calc_relaxed_criticality domains_max_req domains_worst_slack [tag] = Inr crit"
    by (rule calc_relaxed_criticality_single)
  then show "tag_criticality domains_max_req domains_worst_slack tag = Inr c"
    using a crit by simp
next
  assume "tag_criticality domains_max_req domains_worst_slack tag = Inr c"
  then show "calc_relaxed_criticality domains_max_req domains_worst_slack [tag] = Inr c"
    by (rule calc_relaxed_criticality_single)
qed

lemma tag_criticality_valid:
  assumes "stated_preconditions domains_max_req domains_worst_slack tag"
    and "within_tolerance domains_max_req domains_worst_slack tag"
  shows "\<exists>c. tag_criticality domains_max_req domains_worst_slack tag = Inr c"
proof -
  from assms(1) have t: "tag_type tag = SLACK" by (simp add: stated_preconditions_def)
  from assms(1) obtain slack' max_req' where
    sv: "shifted_values domains_max_req domains_worst_slack tag = Some (slack', max_req')"
    and pos: "fless (Fin 0) max_req'"
    by (auto simp: stated_preconditions_def split: option.splits)
  from sv obtain max_req worst_slack where
    e: "domains_max_req (launch_clock_domain tag, capture_clock_domain tag) = Some max_req"
      "domains_worst_slack (launch_clock_domain tag, capture_clock_domain tag) = Some worst_slack"
      "shift_by_worst_slack worst_slack (time_value tag) max_req = Inr (slack', max_req')"
    by (auto simp: shifted_values_def domain_pair_of_def split: option.splits sum.splits)
  have tc: "tag_criticality domains_max_req domains_worst_slack tag
           = check_and_clamp (unclamped_criticality slack' max_req')"
    using t e pos by (rule tag_criticality_InrI)
  have "fle (dsub (Fin 0) CRITICALITY_ROUND_OFF_TOLERANCE) (unclamped_criticality slack' max_req')"
    "fle (unclamped_criticality slack' max_req') (dadd (Fin 1) CRITICALITY_ROUND_OFF_TOLERANCE)"
    using assms(2) sv by (simp_all add: within_tolerance_def criticality_before_clamp_def)
  then show ?thesis using tc by (simp add: check_and_clamp_def)
qed

subsection \<open>Values of the examples\<close>

lemma float_small:
  "to_float 2 = Fin 2" "to_float 8 = Fin 8" "to_float 16 = Fin 16" "to_float (- 1) = Fin (- 1)"
  "to_float (1 / 2) = Fin (1 / 2)"
  using to_float_int [of 2] to_float_int [of 8] to_float_int [of 16] to_float_int [of "- 1"]
    to_float_exact [of 1 "- 1"]
  by simp_all

lemma double_small: "to_double (- 1) = Fin (- 1)" "to_double (1 / 2) = Fin (1 / 2)"
  using to_double_int [of "- 1"] to_double_exact [of 1 "- 1"] by simp_all

lemma float_10ns: "to_float (ns 10) = Fin (11258999 / 2 ^ 50)"
  using to_float_eval [of "- 27" "1 / 100000000" 11258999]
  by (simp add: ns_def rne_def Let_def)

lemma float_20ns: "to_float (ns 20) = Fin (11258999 / 2 ^ 49)"
  using to_float_eval [of "- 26" "1 / 50000000" 11258999]
  by (simp add: ns_def rne_def Let_def)

lemma float_2ns: "to_float (ns 2) = Fin (9007199 / 2 ^ 52)"
  using to_float_eval [of "- 29" "1 / 500000000" 9007199]
  by (simp add: ns_def rne_def Let_def)

lemma float_quotient_2ns_10ns:
  "to_float ((9007199 / 2 ^ 52) / (11258999 / 2 ^ 50)) = Fin (13421773 / 2 ^ 26)"
  using to_float_eval [of "- 3" "(9007199 / 2 ^ 52) / (11258999 / 2 ^ 50)" 13421773]
  by (simp add: rne_def Let_def)

lemma double_difference: "to_double (1 - 13421773 / 2 ^ 26) = Fin (53687091 / 2 ^ 26)"
  using to_double_exact [of 53687091 "- 26"] by simp

lemma float_difference: "to_float (53687091 / 2 ^ 26) = Fin (13421773 / 2 ^ 24)"
  using to_float_eval [of "- 1" "53687091 / 2 ^ 26" 13421773]
  by (simp add: rne_def Let_def)

lemma float_eight_tenths: "to_float (8 / 10) = Fin (13421773 / 2 ^ 24)"
  using to_float_eval [of "- 1" "8 / 10" 13421773]
  by (simp add: rne_def Let_def)

lemma unclamped_2ns_10ns:
  "unclamped_criticality (Fin (9007199 / 2 ^ 52)) (Fin (11258999 / 2 ^ 50))
     = Fin (13421773 / 2 ^ 24)"
proof -
  have "fdiv (Fin (9007199 / 2 ^ 52)) (Fin (11258999 / 2 ^ 50)) = Fin (13421773 / 2 ^ 26)"
    using float_quotient_2ns_10ns by simp
  then show ?thesis
    using double_difference float_difference
    by (simp add: unclamped_criticality_def dsub_def)
qed

lemma unclamped_20ns_10ns:
  "unclamped_criticality (Fin (11258999 / 2 ^ 49)) (Fin (11258999 / 2 ^ 50)) = Fin (- 1)"
  by (simp add: unclamped_criticality_def dsub_def float_small double_small)

text \<open>
  The rounding of the quotient decides the first check: for a required time of 12582912, a
  slack of 12584170 and a worst slack of zero the criticality in real numbers is within the
  tolerance of 1e-4, the one the function computes is \<open>- 839 / 2 ^ 23\<close>, below the negated
  tolerance, and the function stops.
\<close>

lemma float_quotient_boundary:
  "to_float (12584170 / 12582912) = Fin (8389447 / 2 ^ 23)"
  using to_float_eval [of 0 "12584170 / 12582912" 8389447]
  by (simp add: rne_def Let_def)

lemma double_difference_boundary: "to_double (1 - 8389447 / 2 ^ 23) = Fin (- (839 / 2 ^ 23))"
  using to_double_exact [of "- 839" "- 23"] by simp

lemma float_difference_boundary: "to_float (- (839 / 2 ^ 23)) = Fin (- (839 / 2 ^ 23))"
  using to_float_exact [of "- 839" "- 23"] by simp

lemma unclamped_boundary:
  "unclamped_criticality (Fin 12584170) (Fin 12582912) = Fin (- (839 / 2 ^ 23))"
proof -
  have "fdiv (Fin 12584170) (Fin 12582912) = Fin (8389447 / 2 ^ 23)"
    using float_quotient_boundary by simp
  then show ?thesis
    using double_difference_boundary float_difference_boundary
    by (simp add: unclamped_criticality_def dsub_def)
qed

lemma criticality_boundary:
  "(- (1 / 10000) :: real) \<le> 1 - 12584170 / 12582912
   \<and> calc_relaxed_criticality [(0, 0) \<mapsto> Fin 12582912] [(0, 0) \<mapsto> Fin 0]
        [slack_tag 0 0 12584170]
       = Inl (AssertFailed ''Criticality should never be negative'')"
proof -
  let ?tag = "slack_tag 0 0 12584170"
  have "tag_criticality [(0, 0) \<mapsto> Fin 12582912] [(0, 0) \<mapsto> Fin 0] ?tag
          = check_and_clamp (unclamped_criticality (Fin 12584170) (Fin 12582912))"
    by (rule tag_criticality_InrI [of _ _ "Fin 12582912" _ "Fin 0"])
      (simp_all add: slack_tag_def shift_by_worst_slack_def)
  also have "\<dots> = check_and_clamp (Fin (- (839 / 2 ^ 23)))" by (simp only: unclamped_boundary)
  also have "\<dots> = Inl (AssertFailed ''Criticality should never be negative'')"
    by (simp add: check_and_clamp_def lower_bound_value)
  finally have "calc_relaxed_criticality [(0, 0) \<mapsto> Fin 12582912] [(0, 0) \<mapsto> Fin 0] [?tag]
       = Inl (AssertFailed ''Criticality should never be negative'')"
    by (simp add: calc_relaxed_criticality_def)
  then show ?thesis by simp
qed

lemma late_example_4:
  "tag_criticality example_late_max_req example_negative_worst_slack (slack_tag 0 0 4)
     = Inr (Fin (1 / 2))"
  by (simp add: tag_criticality_def example_late_max_req_def example_negative_worst_slack_def
      slack_tag_def shift_by_worst_slack_def fadd_def unclamped_criticality_def dsub_def
      float_small double_small check_and_clamp_unit)

lemma late_example_minus_4:
  "tag_criticality example_late_max_req example_negative_worst_slack (slack_tag 0 0 (- 4))
     = Inr (Fin 1)"
  by (simp add: tag_criticality_def example_late_max_req_def example_negative_worst_slack_def
      slack_tag_def shift_by_worst_slack_def fadd_def unclamped_criticality_def dsub_def
      float_small to_float_0 to_float_1 to_double_1 check_and_clamp_unit)

text \<open>
  C1, as amended: when every tag is a slack, both maps hold an entry for its domain pair,
  the required time after the shift is positive, and the criticality of every tag before
  the clamp, as the floating-point operations of the function give it, is within the
  tolerance of \<^verbatim>\<open>float(1e-4)\<close> around the range from zero to one, the function returns a
  number between zero and one. Whenever it returns at all, for any input, the result is such
  a number. The result is a function of the two maps and the tags alone.
\<close>

theorem criticality_in_unit_interval:
  "(list_all (\<lambda>tag. stated_preconditions domains_max_req domains_worst_slack tag
                   \<and> within_tolerance domains_max_req domains_worst_slack tag) tags \<longrightarrow>
      (\<exists>x. calc_relaxed_criticality domains_max_req domains_worst_slack tags = Inr (Fin x)
            \<and> 0 \<le> x \<and> x \<le> 1))
   \<and> (calc_relaxed_criticality domains_max_req domains_worst_slack tags = Inr r \<longrightarrow>
        (\<exists>x. r = Fin x \<and> 0 \<le> x \<and> x \<le> 1))"
proof (intro conjI impI)
  assume a: "list_all (\<lambda>tag. stated_preconditions domains_max_req domains_worst_slack tag
                   \<and> within_tolerance domains_max_req domains_worst_slack tag) tags"
  have "list_all (\<lambda>tag. \<exists>c. tag_criticality domains_max_req domains_worst_slack tag = Inr c) tags"
    using a tag_criticality_valid [of domains_max_req domains_worst_slack]
    by (auto simp: list_all_iff)
  then obtain r where "max_criticality domains_max_req domains_worst_slack tags (Fin 0) = Inr r"
    using max_criticality_total by blast
  then have r: "calc_relaxed_criticality domains_max_req domains_worst_slack tags = Inr r"
    by (rule calc_relaxed_criticality_max)
  then obtain x where "r = Fin x" "0 \<le> x" "x \<le> 1"
    using calc_relaxed_criticality_Inr by blast
  then show "\<exists>x. calc_relaxed_criticality domains_max_req domains_worst_slack tags = Inr (Fin x)
            \<and> 0 \<le> x \<and> x \<le> 1"
    using r by (intro exI [of _ x]) simp
next
  assume "calc_relaxed_criticality domains_max_req domains_worst_slack tags = Inr r"
  then show "\<exists>x. r = Fin x \<and> 0 \<le> x \<and> x \<le> 1" by (rule calc_relaxed_criticality_Inr)
qed

theorem criticality_in_unit_interval_witness:
  "calc_relaxed_criticality example_late_max_req example_negative_worst_slack
      [slack_tag 0 0 4, slack_tag 0 0 (- 4)] = Inr (Fin 1)"
proof -
  have sv4: "shifted_values example_late_max_req example_negative_worst_slack (slack_tag 0 0 4)
               = Some (Fin 8, Fin 16)"
    by (simp add: shifted_values_def domain_pair_of_def example_late_max_req_def
        example_negative_worst_slack_def slack_tag_def shift_by_worst_slack_def fadd_def
        float_small)
  have svm: "shifted_values example_late_max_req example_negative_worst_slack
               (slack_tag 0 0 (- 4)) = Some (Fin 0, Fin 16)"
    by (simp add: shifted_values_def domain_pair_of_def example_late_max_req_def
        example_negative_worst_slack_def slack_tag_def shift_by_worst_slack_def fadd_def
        float_small to_float_0)
  have u4: "unclamped_criticality (Fin 8) (Fin 16) = Fin (1 / 2)"
    by (simp add: unclamped_criticality_def dsub_def float_small double_small)
  have um: "unclamped_criticality (Fin 0) (Fin 16) = Fin 1"
    by (simp add: unclamped_criticality_def dsub_def to_float_0 to_float_1 to_double_1)
  have "list_all (\<lambda>tag. stated_preconditions example_late_max_req example_negative_worst_slack tag
                   \<and> within_tolerance example_late_max_req example_negative_worst_slack tag)
          [slack_tag 0 0 4, slack_tag 0 0 (- 4)]"
    by (simp add: stated_preconditions_def within_tolerance_def criticality_before_clamp_def
        sv4 svm u4 um lower_bound_value upper_bound_value)
      (simp add: slack_tag_def)
  then have "\<exists>x. calc_relaxed_criticality example_late_max_req example_negative_worst_slack
      [slack_tag 0 0 4, slack_tag 0 0 (- 4)] = Inr (Fin x) \<and> 0 \<le> x \<and> x \<le> 1"
    by (rule criticality_in_unit_interval [of example_late_max_req example_negative_worst_slack
        "[slack_tag 0 0 4, slack_tag 0 0 (- 4)]" "Fin 1", THEN conjunct1, THEN mp])
  moreover have "calc_relaxed_criticality example_late_max_req example_negative_worst_slack
      [slack_tag 0 0 4, slack_tag 0 0 (- 4)] = Inr (Fin 1)"
    by (simp add: calc_relaxed_criticality_def late_example_4 late_example_minus_4 fmax_def)
  ultimately show ?thesis by simp
qed

text \<open>
  The preconditions of C1 as it was stated do not suffice: a slack of 20 ns against a
  required time of 10 ns and a worst slack of zero, the times being the floats nearest to
  them, is a slack tag with both entries and a positive required time; the quotient is 2,
  the criticality before the clamp is -1, and the check of it fails.
\<close>

theorem criticality_preconditions_counterexample:
  "tag_type (ns_slack_tag 0 0 20) = SLACK
   \<and> example_max_req (launch_clock_domain (ns_slack_tag 0 0 20),
        capture_clock_domain (ns_slack_tag 0 0 20)) = Some (Fin (11258999 / 2 ^ 50))
   \<and> example_zero_worst_slack (launch_clock_domain (ns_slack_tag 0 0 20),
        capture_clock_domain (ns_slack_tag 0 0 20)) = Some (Fin 0)
   \<and> time_value (ns_slack_tag 0 0 20) = Fin (11258999 / 2 ^ 49)
   \<and> shift_by_worst_slack (Fin 0) (Fin (11258999 / 2 ^ 49)) (Fin (11258999 / 2 ^ 50))
       = Inr (Fin (11258999 / 2 ^ 49), Fin (11258999 / 2 ^ 50))
   \<and> fless (Fin 0) (Fin (11258999 / 2 ^ 50))
   \<and> stated_preconditions example_max_req example_zero_worst_slack (ns_slack_tag 0 0 20)
   \<and> calc_relaxed_criticality example_max_req example_zero_worst_slack [ns_slack_tag 0 0 20]
       = Inl (AssertFailed ''Criticality should never be negative'')"
proof -
  let ?tag = "ns_slack_tag 0 0 20"
  have t: "tag_type ?tag = SLACK" by (simp add: ns_slack_tag_def)
  have mr: "example_max_req (launch_clock_domain ?tag, capture_clock_domain ?tag)
              = Some (Fin (11258999 / 2 ^ 50))"
    unfolding example_max_req_def float_10ns by (simp add: ns_slack_tag_def)
  have ws: "example_zero_worst_slack (launch_clock_domain ?tag, capture_clock_domain ?tag)
              = Some (Fin 0)"
    by (simp add: example_zero_worst_slack_def ns_slack_tag_def)
  have tv: "time_value ?tag = Fin (11258999 / 2 ^ 49)"
    unfolding ns_slack_tag_def by (simp add: float_20ns)
  have sh: "shift_by_worst_slack (Fin 0) (Fin (11258999 / 2 ^ 49)) (Fin (11258999 / 2 ^ 50))
       = Inr (Fin (11258999 / 2 ^ 49), Fin (11258999 / 2 ^ 50))"
    by (simp add: shift_by_worst_slack_def)
  have pos: "fless (Fin 0) (Fin (11258999 / 2 ^ 50))" by simp
  have sv: "shifted_values example_max_req example_zero_worst_slack ?tag
              = Some (Fin (11258999 / 2 ^ 49), Fin (11258999 / 2 ^ 50))"
    unfolding shifted_values_def domain_pair_of_def mr ws tv
    by (simp add: shift_by_worst_slack_def)
  have sp: "stated_preconditions example_max_req example_zero_worst_slack ?tag"
    unfolding stated_preconditions_def sv using t by simp
  have "tag_criticality example_max_req example_zero_worst_slack ?tag
          = check_and_clamp (unclamped_criticality (Fin (11258999 / 2 ^ 49))
              (Fin (11258999 / 2 ^ 50)))"
  proof -
    have sh': "shift_by_worst_slack (Fin 0) (time_value ?tag) (Fin (11258999 / 2 ^ 50))
            = Inr (Fin (11258999 / 2 ^ 49), Fin (11258999 / 2 ^ 50))"
      unfolding tv by (rule sh)
    show ?thesis using t mr ws sh' pos by (rule tag_criticality_InrI)
  qed
  also have "\<dots> = check_and_clamp (Fin (- 1))" by (simp only: unclamped_20ns_10ns)
  also have "\<dots> = Inl (AssertFailed ''Criticality should never be negative'')"
    by (simp add: check_and_clamp_def lower_bound_value)
  finally have "calc_relaxed_criticality example_max_req example_zero_worst_slack [?tag]
       = Inl (AssertFailed ''Criticality should never be negative'')"
    by (simp add: calc_relaxed_criticality_def)
  then show ?thesis using t mr ws tv sh pos sp by (intro conjI)
qed

text \<open>
  C2: for fixed aggregates of a domain pair and two tags of that pair of which the first has
  the smaller or the same slack, the criticality computed for the first tag is at least the
  criticality computed for the second: for the criticality of a tag in the loop, and for
  the result of the function on each tag alone. Both tags do get a criticality when they meet
  the preconditions and their criticality before the clamp is within the tolerance.
\<close>

theorem criticality_antitone_in_slack:
  assumes "launch_clock_domain tag1 = launch_clock_domain tag2"
    and "capture_clock_domain tag1 = capture_clock_domain tag2"
    and "fle (time_value tag1) (time_value tag2)"
  shows "(tag_criticality domains_max_req domains_worst_slack tag1 = Inr c1
            \<and> tag_criticality domains_max_req domains_worst_slack tag2 = Inr c2 \<longrightarrow> fle c2 c1)
       \<and> (calc_relaxed_criticality domains_max_req domains_worst_slack [tag1] = Inr c1
            \<and> calc_relaxed_criticality domains_max_req domains_worst_slack [tag2] = Inr c2
            \<longrightarrow> fle c2 c1)
       \<and> (stated_preconditions domains_max_req domains_worst_slack tag1
            \<and> within_tolerance domains_max_req domains_worst_slack tag1
            \<and> stated_preconditions domains_max_req domains_worst_slack tag2
            \<and> within_tolerance domains_max_req domains_worst_slack tag2 \<longrightarrow>
            (\<exists>d1 d2. calc_relaxed_criticality domains_max_req domains_worst_slack [tag1] = Inr d1
               \<and> calc_relaxed_criticality domains_max_req domains_worst_slack [tag2] = Inr d2
               \<and> fle d2 d1))"
proof -
  have main: "fle b a"
    if t1: "tag_criticality domains_max_req domains_worst_slack tag1 = Inr a"
      and t2: "tag_criticality domains_max_req domains_worst_slack tag2 = Inr b" for a b
  proof -
    from t1 obtain max_req worst_slack s1 m1 where
      a: "domains_max_req (launch_clock_domain tag1, capture_clock_domain tag1) = Some max_req"
        "domains_worst_slack (launch_clock_domain tag1, capture_clock_domain tag1) = Some worst_slack"
        "shift_by_worst_slack worst_slack (time_value tag1) max_req = Inr (s1, m1)"
        "fless (Fin 0) m1"
        "check_and_clamp (unclamped_criticality s1 m1) = Inr a"
      by (rule tag_criticality_InrE)
    from t2 obtain max_req' worst_slack' s2 m2 where
      b: "domains_max_req (launch_clock_domain tag2, capture_clock_domain tag2) = Some max_req'"
        "domains_worst_slack (launch_clock_domain tag2, capture_clock_domain tag2) = Some worst_slack'"
        "shift_by_worst_slack worst_slack' (time_value tag2) max_req' = Inr (s2, m2)"
        "fless (Fin 0) m2"
        "check_and_clamp (unclamped_criticality s2 m2) = Inr b"
      by (rule tag_criticality_InrE)
    have eq: "max_req' = max_req" "worst_slack' = worst_slack"
      using a(1,2) b(1,2) assms(1,2) by simp_all
    have ca: "\<not> isnan (unclamped_criticality s1 m1)"
      "a = fmin (Fin 1) (fmax (Fin 0) (unclamped_criticality s1 m1))"
      using check_and_clamp_Inr [OF a(5)] by simp_all
    have cb: "\<not> isnan (unclamped_criticality s2 m2)"
      "b = fmin (Fin 1) (fmax (Fin 0) (unclamped_criticality s2 m2))"
      using check_and_clamp_Inr [OF b(5)] by simp_all
    have n1: "\<not> isnan s1" using ca(1) unclamped_criticality_not_nan by blast
    have n2: "\<not> isnan s2" using cb(1) unclamped_criticality_not_nan by blast
    have sh: "m1 = m2 \<and> fle s1 s2"
      using a(3) b(3) [unfolded eq] assms(3) n1 n2 by (rule shift_by_worst_slack_mono)
    then have "fle (unclamped_criticality s2 m1) (unclamped_criticality s1 m1)"
      using a(4) ca(1) cb(1) by (intro unclamped_criticality_antitone) simp_all
    then have "fle (unclamped_criticality s2 m2) (unclamped_criticality s1 m1)"
      using sh by simp
    then show ?thesis unfolding ca(2) cb(2) by (rule clamp_mono)
  qed
  have c1: "tag_criticality domains_max_req domains_worst_slack tag1 = Inr c1
            \<and> tag_criticality domains_max_req domains_worst_slack tag2 = Inr c2 \<longrightarrow> fle c2 c1"
    using main by blast
  have c2: "calc_relaxed_criticality domains_max_req domains_worst_slack [tag1] = Inr c1
            \<and> calc_relaxed_criticality domains_max_req domains_worst_slack [tag2] = Inr c2
            \<longrightarrow> fle c2 c1"
    using main by (simp add: calc_relaxed_criticality_single_iff)
  have c3: "stated_preconditions domains_max_req domains_worst_slack tag1
            \<and> within_tolerance domains_max_req domains_worst_slack tag1
            \<and> stated_preconditions domains_max_req domains_worst_slack tag2
            \<and> within_tolerance domains_max_req domains_worst_slack tag2 \<longrightarrow>
            (\<exists>d1 d2. calc_relaxed_criticality domains_max_req domains_worst_slack [tag1] = Inr d1
               \<and> calc_relaxed_criticality domains_max_req domains_worst_slack [tag2] = Inr d2
               \<and> fle d2 d1)"
  proof (intro impI, elim conjE)
    assume p: "stated_preconditions domains_max_req domains_worst_slack tag1"
      "within_tolerance domains_max_req domains_worst_slack tag1"
      "stated_preconditions domains_max_req domains_worst_slack tag2"
      "within_tolerance domains_max_req domains_worst_slack tag2"
    obtain d1 where d1: "tag_criticality domains_max_req domains_worst_slack tag1 = Inr d1"
      using tag_criticality_valid [OF p(1,2)] by blast
    obtain d2 where d2: "tag_criticality domains_max_req domains_worst_slack tag2 = Inr d2"
      using tag_criticality_valid [OF p(3,4)] by blast
    have "fle d2 d1" using d1 d2 by (rule main)
    then show "\<exists>d1 d2. calc_relaxed_criticality domains_max_req domains_worst_slack [tag1] = Inr d1
               \<and> calc_relaxed_criticality domains_max_req domains_worst_slack [tag2] = Inr d2
               \<and> fle d2 d1"
      using d1 d2 by (auto simp: calc_relaxed_criticality_single_iff)
  qed
  show ?thesis using c1 c2 c3 by (intro conjI)
qed

theorem criticality_antitone_in_slack_witness:
  "calc_relaxed_criticality example_late_max_req example_negative_worst_slack
      [slack_tag 0 0 (- 4)] = Inr (Fin 1)
   \<and> calc_relaxed_criticality example_late_max_req example_negative_worst_slack
      [slack_tag 0 0 4] = Inr (Fin (1 / 2))
   \<and> fle (Fin (1 / 2)) (Fin 1)"
proof -
  have a: "calc_relaxed_criticality example_late_max_req example_negative_worst_slack
      [slack_tag 0 0 (- 4)] = Inr (Fin 1)"
    using late_example_minus_4 by (rule calc_relaxed_criticality_single)
  have b: "calc_relaxed_criticality example_late_max_req example_negative_worst_slack
      [slack_tag 0 0 4] = Inr (Fin (1 / 2))"
    using late_example_4 by (rule calc_relaxed_criticality_single)
  have h: "launch_clock_domain (slack_tag 0 0 (- 4)) = launch_clock_domain (slack_tag 0 0 4)"
    "capture_clock_domain (slack_tag 0 0 (- 4)) = capture_clock_domain (slack_tag 0 0 4)"
    "fle (time_value (slack_tag 0 0 (- 4))) (time_value (slack_tag 0 0 4))"
    by (simp_all add: slack_tag_def)
  have "fle (Fin (1 / 2)) (Fin 1)"
    using criticality_antitone_in_slack [OF h, of example_late_max_req
        example_negative_worst_slack "Fin 1" "Fin (1 / 2)"] a b
    by blast
  then show ?thesis using a b by (intro conjI)
qed

lemma shift_by_worst_slack_nonneg:
  "fle (Fin 0) worst_slack \<Longrightarrow> shift_by_worst_slack worst_slack slack max_req = Inr (slack, max_req)"
  by (cases worst_slack) (simp_all add: shift_by_worst_slack_def)

lemma example_2ns_10ns:
  "calc_relaxed_criticality example_max_req example_worst_slack [ns_slack_tag 0 0 2]
     = Inr (Fin (13421773 / 2 ^ 24))"
proof -
  let ?tag = "ns_slack_tag 0 0 2"
  have t: "tag_type ?tag = SLACK" by (simp add: ns_slack_tag_def)
  have mr: "example_max_req (launch_clock_domain ?tag, capture_clock_domain ?tag)
              = Some (Fin (11258999 / 2 ^ 50))"
    unfolding example_max_req_def float_10ns by (simp add: ns_slack_tag_def)
  have ws: "example_worst_slack (launch_clock_domain ?tag, capture_clock_domain ?tag)
              = Some (Fin (9007199 / 2 ^ 52))"
    unfolding example_worst_slack_def float_2ns by (simp add: ns_slack_tag_def)
  have tv: "time_value ?tag = Fin (9007199 / 2 ^ 52)"
    unfolding ns_slack_tag_def by (simp add: float_2ns)
  have sh: "shift_by_worst_slack (Fin (9007199 / 2 ^ 52)) (time_value ?tag)
              (Fin (11258999 / 2 ^ 50))
            = Inr (Fin (9007199 / 2 ^ 52), Fin (11258999 / 2 ^ 50))"
    unfolding tv by (rule shift_by_worst_slack_nonneg) simp
  have pos: "fless (Fin 0) (Fin (11258999 / 2 ^ 50))" by simp
  have "tag_criticality example_max_req example_worst_slack ?tag
          = check_and_clamp (unclamped_criticality (Fin (9007199 / 2 ^ 52))
              (Fin (11258999 / 2 ^ 50)))"
    using t mr ws sh pos by (rule tag_criticality_InrI)
  also have "\<dots> = check_and_clamp (Fin (13421773 / 2 ^ 24))"
    by (simp only: unclamped_2ns_10ns)
  also have "\<dots> = Inr (Fin (13421773 / 2 ^ 24))"
    by (rule check_and_clamp_unit) simp_all
  finally show ?thesis by (rule calc_relaxed_criticality_single)
qed

text \<open>
  C3: when the worst slack of the domain pair is not negative the slack and the required
  time are not shifted, and the criticality of the tag is computed from them as they are:
  it is \<^verbatim>\<open>1. - (slack / max_req)\<close> in the arithmetic of the function, checked and clamped,
  and for a slack between zero and the required time it is that value itself, the quotient
  rounded to a float and its difference from one rounded to a double and to a float. With a
  required time of 10 ns, a slack of 2 ns and a worst slack of 2 ns the criticality is the
  float 0.8.
\<close>

theorem criticality_unshifted:
  "(fle (Fin 0) worst_slack \<longrightarrow>
      shift_by_worst_slack worst_slack slack max_req = Inr (slack, max_req))
   \<and> (tag_type tag = SLACK
        \<and> domains_max_req (launch_clock_domain tag, capture_clock_domain tag) = Some max_req
        \<and> domains_worst_slack (launch_clock_domain tag, capture_clock_domain tag)
            = Some worst_slack
        \<and> fle (Fin 0) worst_slack \<and> fless (Fin 0) max_req \<longrightarrow>
        tag_criticality domains_max_req domains_worst_slack tag
          = check_and_clamp (unclamped_criticality (time_value tag) max_req))
   \<and> (tag_type tag = SLACK
        \<and> domains_max_req (launch_clock_domain tag, capture_clock_domain tag) = Some (Fin m)
        \<and> domains_worst_slack (launch_clock_domain tag, capture_clock_domain tag)
            = Some worst_slack
        \<and> fle (Fin 0) worst_slack \<and> time_value tag = Fin s \<and> 0 \<le> s \<and> s \<le> m \<and> 0 < m \<longrightarrow>
        (\<exists>q d c. to_float (s / m) = Fin q \<and> to_double (1 - q) = Fin d \<and> to_float d = Fin c
           \<and> calc_relaxed_criticality domains_max_req domains_worst_slack [tag] = Inr (Fin c)))
   \<and> calc_relaxed_criticality example_max_req example_worst_slack [ns_slack_tag 0 0 2]
       = Inr (to_float (8 / 10))
   \<and> to_float (8 / 10) = Fin (13421773 / 2 ^ 24)"
proof (intro conjI impI)
  assume "fle (Fin 0) worst_slack"
  then show "shift_by_worst_slack worst_slack slack max_req = Inr (slack, max_req)"
    by (rule shift_by_worst_slack_nonneg)
next
  assume a: "tag_type tag = SLACK
        \<and> domains_max_req (launch_clock_domain tag, capture_clock_domain tag) = Some max_req
        \<and> domains_worst_slack (launch_clock_domain tag, capture_clock_domain tag)
            = Some worst_slack
        \<and> fle (Fin 0) worst_slack \<and> fless (Fin 0) max_req"
  then have "shift_by_worst_slack worst_slack (time_value tag) max_req
               = Inr (time_value tag, max_req)"
    by (intro shift_by_worst_slack_nonneg) simp
  then show "tag_criticality domains_max_req domains_worst_slack tag
          = check_and_clamp (unclamped_criticality (time_value tag) max_req)"
    using a by (intro tag_criticality_InrI [of tag domains_max_req max_req
          domains_worst_slack worst_slack]) simp_all
next
  assume a: "tag_type tag = SLACK
        \<and> domains_max_req (launch_clock_domain tag, capture_clock_domain tag) = Some (Fin m)
        \<and> domains_worst_slack (launch_clock_domain tag, capture_clock_domain tag)
            = Some worst_slack
        \<and> fle (Fin 0) worst_slack \<and> time_value tag = Fin s \<and> 0 \<le> s \<and> s \<le> m \<and> 0 < m"
  then have sh: "shift_by_worst_slack worst_slack (time_value tag) (Fin m)
               = Inr (time_value tag, Fin m)"
    by (intro shift_by_worst_slack_nonneg) simp
  have tc: "tag_criticality domains_max_req domains_worst_slack tag
          = check_and_clamp (unclamped_criticality (time_value tag) (Fin m))"
    using a sh by (intro tag_criticality_InrI [of tag domains_max_req "Fin m"
          domains_worst_slack worst_slack]) simp_all
  obtain q d c where u: "to_float (s / m) = Fin q" "to_double (1 - q) = Fin d"
    "to_float d = Fin c" "unclamped_criticality (Fin s) (Fin m) = Fin c" "0 \<le> c" "c \<le> 1"
    using unclamped_criticality_unit [of s m] a by blast
  have "check_and_clamp (Fin c) = Inr (Fin c)" using u(5,6) by (rule check_and_clamp_unit)
  then have "tag_criticality domains_max_req domains_worst_slack tag = Inr (Fin c)"
    using tc a u(4) by simp
  then have "calc_relaxed_criticality domains_max_req domains_worst_slack [tag] = Inr (Fin c)"
    by (rule calc_relaxed_criticality_single)
  then show "\<exists>q d c. to_float (s / m) = Fin q \<and> to_double (1 - q) = Fin d \<and> to_float d = Fin c
           \<and> calc_relaxed_criticality domains_max_req domains_worst_slack [tag] = Inr (Fin c)"
    using u(1,2,3) by blast
next
  show "calc_relaxed_criticality example_max_req example_worst_slack [ns_slack_tag 0 0 2]
       = Inr (to_float (8 / 10))"
    unfolding float_eight_tenths by (rule example_2ns_10ns)
next
  show "to_float (8 / 10) = Fin (13421773 / 2 ^ 24)" by (rule float_eight_tenths)
qed

theorem criticality_unshifted_witness:
  "\<exists>q d c. to_float ((9007199 / 2 ^ 52) / (11258999 / 2 ^ 50)) = Fin q
      \<and> to_double (1 - q) = Fin d \<and> to_float d = Fin c
      \<and> calc_relaxed_criticality example_max_req example_worst_slack [ns_slack_tag 0 0 2]
          = Inr (Fin c)"
proof -
  let ?tag = "ns_slack_tag 0 0 2"
  have h: "tag_type ?tag = SLACK
        \<and> example_max_req (launch_clock_domain ?tag, capture_clock_domain ?tag)
            = Some (Fin (11258999 / 2 ^ 50))
        \<and> example_worst_slack (launch_clock_domain ?tag, capture_clock_domain ?tag)
            = Some (Fin (9007199 / 2 ^ 52))
        \<and> fle (Fin 0) (Fin (9007199 / 2 ^ 52)) \<and> time_value ?tag = Fin (9007199 / 2 ^ 52)
        \<and> (0::real) \<le> 9007199 / 2 ^ 52 \<and> (9007199 / 2 ^ 52 :: real) \<le> 11258999 / 2 ^ 50
        \<and> (0::real) < 11258999 / 2 ^ 50"
    by (simp add: ns_slack_tag_def example_max_req_def example_worst_slack_def float_10ns
        float_2ns)
  show ?thesis
    using criticality_unshifted [of "Fin (9007199 / 2 ^ 52)" "Fin (9007199 / 2 ^ 52)"
        "Fin (11258999 / 2 ^ 50)" ?tag example_max_req example_worst_slack
        "11258999 / 2 ^ 50" "9007199 / 2 ^ 52"] h
    by blast
qed

end
